theory Spec2Isabelle
  imports Complex_Main "HOL-Library.AList" "HOL-Library.Sublist"
begin

section \<open>The QMap dialect (qmap_dialect.py)\<close>

text \<open>
  Logical and physical qubits are two nominal wrappers around a Python integer; equality
  and hashing go through the wrapped id, and a logical qubit never equals a physical one.
\<close>

datatype LogicalQubit = LogicalQubit (lq_id: int)

datatype PhysicalQubit = PhysicalQubit (pq_id: int)

text \<open>
  A layout is a Python dict from logical to physical qubits. Python dicts iterate in
  insertion order and an assignment to an existing key keeps its position, which is what
  \<open>AList.update\<close> does on an association list; a lookup is \<open>map_of\<close>.
\<close>

type_synonym layout = "(LogicalQubit \<times> PhysicalQubit) list"

text \<open>
  The four operation classes, with their fields in the order of the constructors'
  arguments: \<open>SingleQubitGateOp gate qubit\<close>, \<open>TryTwoQubitOp gate control target\<close>,
  \<open>InsertSwapOp qubit1 qubit2 cost\<close> and \<open>CurrentLayoutOp layout\<close> (which stores a copy of the
  dict it is given). The float \<open>cost\<close> of a swap is modelled by an exact real number:
  rounding is not part of the model.
\<close>

datatype operation =
    SingleQubitGateOp string LogicalQubit
  | TryTwoQubitOp string (control: LogicalQubit) (target: LogicalQubit)
  | InsertSwapOp PhysicalQubit PhysicalQubit real
  | CurrentLayoutOp layout

text \<open>The exceptions the routing code can raise.\<close>

datatype error = KeyError | IndexError | ValueError

subsection \<open>Python's \<open>str\<close> of an integer and \<open>int\<close> of a character\<close>

definition digit_char :: "nat \<Rightarrow> char" where
  "digit_char n = ''0123456789'' ! (n mod 10)"

fun str_nat :: "nat \<Rightarrow> string" where
  "str_nat n = (if n < 10 then [digit_char n] else str_nat (n div 10) @ [digit_char n])"

definition str_int :: "int \<Rightarrow> string" where
  "str_int i = (if i < 0 then CHR ''-'' # str_nat (nat (- i)) else str_nat (nat i))"

text \<open>\<open>PhysicalQubit.__str__\<close>: the label \<open>P<id>\<close>.\<close>

definition str_pq :: "PhysicalQubit \<Rightarrow> string" where
  "str_pq pq = CHR ''P'' # str_int (pq_id pq)"

text \<open>\<open>int(c)\<close> for a one-character string: a decimal digit, or \<open>ValueError\<close>.\<close>

definition int_of_char :: "char \<Rightarrow> error + int" where
  "int_of_char c =
     (if c = CHR ''0'' then Inr 0 else if c = CHR ''1'' then Inr 1
      else if c = CHR ''2'' then Inr 2 else if c = CHR ''3'' then Inr 3
      else if c = CHR ''4'' then Inr 4 else if c = CHR ''5'' then Inr 5
      else if c = CHR ''6'' then Inr 6 else if c = CHR ''7'' then Inr 7
      else if c = CHR ''8'' then Inr 8 else if c = CHR ''9'' then Inr 9
      else Inl ValueError)"

section \<open>Hardware topologies (hardware_configs.py)\<close>

text \<open>
  A topology object: the list of labels, the coupling graph (a dict from a label to the set
  of its neighbours; each set is given as the list in which it is enumerated) and the
  \<open>get_fidelity\<close> method, which subclasses override.
\<close>

record topology =
  physical_qubits :: "string list"
  coupling_graph :: "(string \<times> string list) list"
  get_fidelity :: "string \<Rightarrow> string \<Rightarrow> real"

definition are_adjacent :: "topology \<Rightarrow> string \<Rightarrow> string \<Rightarrow> bool" where
  "are_adjacent topo qubit1 qubit2 =
     (case map_of (coupling_graph topo) qubit1 of
        None \<Rightarrow> False
      | Some ns \<Rightarrow> qubit2 \<in> set ns)"

definition get_neighbors :: "topology \<Rightarrow> string \<Rightarrow> string list" where
  "get_neighbors topo q = (case map_of (coupling_graph topo) q of None \<Rightarrow> [] | Some ns \<Rightarrow> ns)"

text \<open>
  The body of the \<open>for neighbor in ...\<close> loop of \<open>shortest_path\<close>: it either returns the
  path to the destination (\<open>Inl\<close>) or finishes with the grown visited set and queue (\<open>Inr\<close>).
\<close>

fun scan_neighbors ::
  "string \<Rightarrow> string list \<Rightarrow> string list \<Rightarrow> string set \<Rightarrow> (string \<times> string list) list
   \<Rightarrow> string list + (string set \<times> (string \<times> string list) list)" where
  "scan_neighbors dst path [] visited queue = Inr (visited, queue)"
| "scan_neighbors dst path (neighbor # ns) visited queue =
     (if neighbor = dst then Inl (path @ [neighbor])
      else if neighbor \<notin> visited
        then scan_neighbors dst path ns (insert neighbor visited) (queue @ [(neighbor, path @ [neighbor])])
        else scan_neighbors dst path ns visited queue)"

text \<open>The labels that occur as a neighbour: the breadth-first search never leaves them.\<close>

definition graph_nodes :: "topology \<Rightarrow> string set" where
  "graph_nodes topo = (\<Union>(k, ns) \<in> set (coupling_graph topo). set ns)"

lemma finite_graph_nodes: "finite (graph_nodes topo)"
  by (auto simp: graph_nodes_def)

lemma get_neighbors_nodes: "set (get_neighbors topo q) \<subseteq> graph_nodes topo"
proof
  fix x assume x: "x \<in> set (get_neighbors topo q)"
  then obtain ns where ns: "map_of (coupling_graph topo) q = Some ns" "x \<in> set ns"
    by (cases "map_of (coupling_graph topo) q") (simp_all add: get_neighbors_def)
  then have "(q, ns) \<in> set (coupling_graph topo)" by (simp add: map_of_SomeD)
  with ns show "x \<in> graph_nodes topo" unfolding graph_nodes_def by blast
qed

lemma scan_neighbors_measure:
  "scan_neighbors dst path ns visited queue = Inr (v', q') \<Longrightarrow> set ns \<subseteq> N \<Longrightarrow> finite N \<Longrightarrow>
   2 * card (N - v') + length q' \<le> 2 * card (N - visited) + length queue"
proof (induction ns arbitrary: visited queue)
  case Nil
  then show ?case by simp
next
  case (Cons n ns)
  show ?case
  proof (cases "n = dst")
    case True
    with Cons.prems show ?thesis by simp
  next
    case neq: False
    show ?thesis
    proof (cases "n \<in> visited")
      case True
      with neq Cons show ?thesis by simp
    next
      case False
      from Cons.prems have nN: "n \<in> N" by simp
      have "N - visited = insert n (N - insert n visited)" using nN False by auto
      moreover have "n \<notin> N - insert n visited" by simp
      ultimately have c: "card (N - visited) = Suc (card (N - insert n visited))"
        using Cons.prems(3) by (metis card_insert_disjoint finite_Diff)
      from False neq Cons.prems
      have "scan_neighbors dst path ns (insert n visited) (queue @ [(n, path @ [n])]) = Inr (v', q')"
        by simp
      from Cons.IH[OF this] Cons.prems
      have "2 * card (N - v') + length q' \<le> 2 * card (N - insert n visited) + length (queue @ [(n, path @ [n])])"
        by simp
      with c show ?thesis by simp
    qed
  qed
qed

text \<open>
  The \<open>while queue\<close> loop of \<open>shortest_path\<close>: an empty queue returns the empty path.
\<close>

function bfs :: "topology \<Rightarrow> string \<Rightarrow> string set \<Rightarrow> (string \<times> string list) list \<Rightarrow> string list" where
  "bfs topo dst visited [] = []"
| "bfs topo dst visited ((current, path) # queue) =
     (case scan_neighbors dst path (get_neighbors topo current) visited queue of
        Inl found \<Rightarrow> found
      | Inr (visited', queue') \<Rightarrow> bfs topo dst visited' queue')"
  by pat_completeness auto
termination
proof (relation "measure (\<lambda>(topo, dst, visited, queue). 2 * card (graph_nodes topo - visited) + length queue)")
  show "wf (measure (\<lambda>(topo, dst, visited, queue). 2 * card (graph_nodes topo - visited) + length queue))"
    by simp
next
  fix topo :: topology and dst visited current path queue x2 x y
  assume "scan_neighbors dst path (get_neighbors topo current) visited queue = Inr x2" "(x, y) = x2"
  then have "scan_neighbors dst path (get_neighbors topo current) visited queue = Inr (x, y)" by simp
  from scan_neighbors_measure[OF this get_neighbors_nodes finite_graph_nodes]
  show "((topo, dst, x, y), topo, dst, visited, (current, path) # queue)
       \<in> measure (\<lambda>(topo, dst, visited, queue). 2 * card (graph_nodes topo - visited) + length queue)"
    by simp
qed

definition shortest_path :: "topology \<Rightarrow> string \<Rightarrow> string \<Rightarrow> string list" where
  "shortest_path topo start dst =
     (if start = dst then [start] else bfs topo dst {start} [(start, [start])])"

text \<open>A Python set kept as the duplicate-free list of its elements in insertion order.\<close>

definition set_add :: "'a \<Rightarrow> 'a list \<Rightarrow> 'a list" where
  "set_add x xs = (if x \<in> set xs then xs else xs @ [x])"

subsection \<open>The topologies of the repository\<close>

definition LinearTopology :: topology where
  "LinearTopology =
     \<lparr>physical_qubits = [''P0'', ''P1'', ''P2''],
      coupling_graph = [(''P0'', [''P1'']), (''P1'', [''P0'', ''P2'']), (''P2'', [''P1''])],
      get_fidelity = (\<lambda>q1 q2. 1)\<rparr>"

definition Grid2x2Topology :: topology where
  "Grid2x2Topology =
     \<lparr>physical_qubits = [''P0'', ''P1'', ''P2'', ''P3''],
      coupling_graph = [(''P0'', [''P1'', ''P2'']), (''P1'', [''P0'', ''P3'']),
                        (''P2'', [''P0'', ''P3'']), (''P3'', [''P1'', ''P2''])],
      get_fidelity = (\<lambda>q1 q2. 1)\<rparr>"

text \<open>
  \<open>HeavyHexTopology.__init__\<close>: fourteen labels with empty neighbour sets, then both
  directions of every connection; the fidelity dict gives 0.99 to every directed edge and
  is then overwritten on four of them. Its \<open>get_fidelity\<close> is a dict lookup with default 0.
\<close>

definition heavy_hex_connections :: "(int \<times> int) list" where
  "heavy_hex_connections =
     [(0, 1), (1, 2), (0, 4), (2, 6), (3, 4), (4, 5), (5, 6), (6, 7),
      (4, 8), (6, 10), (8, 9), (9, 10), (9, 11), (11, 12), (12, 13)]"

definition heavy_hex_graph :: "(string \<times> string list) list" where
  "heavy_hex_graph =
     fold (\<lambda>(u, v) g.
             AList.map_entry (CHR ''P'' # str_int v) (set_add (CHR ''P'' # str_int u))
               (AList.map_entry (CHR ''P'' # str_int u) (set_add (CHR ''P'' # str_int v)) g))
          heavy_hex_connections
          (map (\<lambda>i. (CHR ''P'' # str_int i, [])) [0..13])"

definition heavy_hex_fidelities :: "((string \<times> string) \<times> real) list" where
  "heavy_hex_fidelities =
     AList.update (''P11'', ''P9'') (95 / 100)
       (AList.update (''P9'', ''P11'') (95 / 100)
         (AList.update (''P5'', ''P4'') (92 / 100)
           (AList.update (''P4'', ''P5'') (92 / 100)
             (concat (map (\<lambda>(u, ns). map (\<lambda>v. ((u, v), 99 / 100)) ns) heavy_hex_graph)))))"

definition HeavyHexTopology :: topology where
  "HeavyHexTopology =
     \<lparr>physical_qubits = map (\<lambda>i. CHR ''P'' # str_int i) [0..13],
      coupling_graph = heavy_hex_graph,
      get_fidelity = (\<lambda>q1 q2. case map_of heavy_hex_fidelities (q1, q2) of None \<Rightarrow> 0 | Some f \<Rightarrow> f)\<rparr>"

section \<open>The routing pass (optimizer.py)\<close>

text \<open>
  \<open>initialize_layout\<close>: the identity dict on \<open>range(num_qubits)\<close>, keys inserted in
  increasing order (the range is empty when \<open>num_qubits \<le> 0\<close>).
\<close>

definition initialize_layout :: "int \<Rightarrow> layout" where
  "initialize_layout num_qubits = map (\<lambda>i. (LogicalQubit i, PhysicalQubit i)) [0..num_qubits - 1]"

text \<open>\<open>get_physical_qubits\<close>: two subscript lookups, each raising \<open>KeyError\<close> on a missing key.\<close>

definition get_physical_qubits ::
  "layout \<Rightarrow> LogicalQubit \<Rightarrow> LogicalQubit \<Rightarrow> error + (PhysicalQubit \<times> PhysicalQubit)" where
  "get_physical_qubits current_layout lq1 lq2 =
     (case map_of current_layout lq1 of
        None \<Rightarrow> Inl KeyError
      | Some pq1 \<Rightarrow>
          (case map_of current_layout lq2 of
             None \<Rightarrow> Inl KeyError
           | Some pq2 \<Rightarrow> Inr (pq1, pq2)))"

text \<open>
  The scan of \<open>_apply_swap\<close> over the items of the layout, in dict order: \<open>lq1\<close> becomes the
  last logical qubit held on \<open>pq1\<close>, and \<open>lq2\<close> the last one held on \<open>pq2\<close> among the items
  that are not on \<open>pq1\<close> (the \<open>elif\<close>).
\<close>

fun find_holders ::
  "layout \<Rightarrow> PhysicalQubit \<Rightarrow> PhysicalQubit \<Rightarrow> LogicalQubit option \<times> LogicalQubit option
   \<Rightarrow> LogicalQubit option \<times> LogicalQubit option" where
  "find_holders [] pq1 pq2 (lq1, lq2) = (lq1, lq2)"
| "find_holders ((lq, pq) # items) pq1 pq2 (lq1, lq2) =
     (if pq = pq1 then find_holders items pq1 pq2 (Some lq, lq2)
      else if pq = pq2 then find_holders items pq1 pq2 (lq1, Some lq)
      else find_holders items pq1 pq2 (lq1, lq2))"

text \<open>
  \<open>_apply_swap\<close>, returning the updated layout. \<open>_select_best_swap\<close> repeats the same
  statements on a copy of the layout, so the model uses this function there as well.
\<close>

definition apply_swap :: "layout \<Rightarrow> PhysicalQubit \<Rightarrow> PhysicalQubit \<Rightarrow> layout" where
  "apply_swap current_layout pq1 pq2 =
     (case find_holders current_layout pq1 pq2 (None, None) of
        (lq1, lq2) \<Rightarrow>
          (let l1 = (case lq1 of None \<Rightarrow> current_layout | Some a \<Rightarrow> AList.update a pq2 current_layout)
           in (case lq2 of None \<Rightarrow> l1 | Some b \<Rightarrow> AList.update b pq1 l1)))"

text \<open>
  \<open>_build_front_layer\<close>: the loop over the remaining operations, with the list built so
  far and the set of used qubits; the \<open>break\<close> returns the list built so far.
\<close>

fun front_layer_loop ::
  "operation list \<Rightarrow> operation list \<Rightarrow> LogicalQubit set \<Rightarrow> operation list" where
  "front_layer_loop [] front_layer used_qubits = front_layer"
| "front_layer_loop (TryTwoQubitOp g c t # ops) front_layer used_qubits =
     (if c \<notin> used_qubits \<and> t \<notin> used_qubits
      then front_layer_loop ops (front_layer @ [TryTwoQubitOp g c t]) (insert t (insert c used_qubits))
      else front_layer)"
| "front_layer_loop (_ # ops) front_layer used_qubits = front_layer_loop ops front_layer used_qubits"

definition build_front_layer :: "operation list \<Rightarrow> operation list" where
  "build_front_layer remaining_ops = front_layer_loop remaining_ops [] {}"

text \<open>
  \<open>_calculate_score\<close>: the sum, over the gates of the front layer, of the number of edges
  of the path found between the two physical qubits (0 when no path is found); a gate with
  an operand outside the layout is skipped.
\<close>

fun calculate_score :: "topology \<Rightarrow> layout \<Rightarrow> operation list \<Rightarrow> int" where
  "calculate_score topo potential_layout [] = 0"
| "calculate_score topo potential_layout (g # front_layer) =
     (case (map_of potential_layout (control g), map_of potential_layout (target g)) of
        (Some pq1, Some pq2) \<Rightarrow>
          (let path = shortest_path topo (str_pq pq1) (str_pq pq2);
               distance = (if path \<noteq> [] then int (length path) - 1 else 0)
           in distance + calculate_score topo potential_layout front_layer)
      | _ \<Rightarrow> calculate_score topo potential_layout front_layer)"

text \<open>The three loops of \<open>_get_candidate_swaps\<close>.\<close>

fun logical_qubits_in_front :: "operation list \<Rightarrow> LogicalQubit list \<Rightarrow> LogicalQubit list" where
  "logical_qubits_in_front [] acc = acc"
| "logical_qubits_in_front (g # front_layer) acc =
     logical_qubits_in_front front_layer (set_add (target g) (set_add (control g) acc))"

fun physical_qubits_in_front :: "layout \<Rightarrow> LogicalQubit list \<Rightarrow> PhysicalQubit list \<Rightarrow> PhysicalQubit list" where
  "physical_qubits_in_front current_layout [] acc = acc"
| "physical_qubits_in_front current_layout (lq # lqs) acc =
     (case map_of current_layout lq of
        None \<Rightarrow> physical_qubits_in_front current_layout lqs acc
      | Some pq \<Rightarrow> physical_qubits_in_front current_layout lqs (set_add pq acc))"

text \<open>
  The inner loop over the neighbours of one physical qubit: the neighbour's id is read
  from the second character of its label, \<open>int(neighbor_str[1])\<close>, which raises
  \<open>IndexError\<close> on a label shorter than two characters and \<open>ValueError\<close> when that
  character is not a digit.
\<close>

fun neighbor_swaps :: "int \<Rightarrow> string list \<Rightarrow> (int \<times> int) list \<Rightarrow> error + (int \<times> int) list" where
  "neighbor_swaps p [] candidate_swaps = Inr candidate_swaps"
| "neighbor_swaps p (neighbor_str # ns) candidate_swaps =
     (if length neighbor_str < 2 then Inl IndexError
      else (case int_of_char (neighbor_str ! 1) of
              Inl e \<Rightarrow> Inl e
            | Inr n \<Rightarrow> neighbor_swaps p ns (set_add (min p n, max p n) candidate_swaps)))"

fun candidate_loop :: "topology \<Rightarrow> PhysicalQubit list \<Rightarrow> (int \<times> int) list \<Rightarrow> error + (int \<times> int) list" where
  "candidate_loop topo [] candidate_swaps = Inr candidate_swaps"
| "candidate_loop topo (pq # pqs) candidate_swaps =
     (case neighbor_swaps (pq_id pq) (get_neighbors topo (str_pq pq)) candidate_swaps of
        Inl e \<Rightarrow> Inl e
      | Inr candidate_swaps' \<Rightarrow> candidate_loop topo pqs candidate_swaps')"

text \<open>
  \<open>_get_candidate_swaps\<close>. The result enumerates the Python set \<open>candidate_swaps\<close>, whose
  iteration order the language leaves to the implementation: the parameter \<open>set_order\<close>
  is that order, as a function of the set's elements in insertion order.
\<close>

definition get_candidate_swaps ::
  "((int \<times> int) list \<Rightarrow> (int \<times> int) list) \<Rightarrow> topology \<Rightarrow> layout \<Rightarrow> operation list
   \<Rightarrow> error + (PhysicalQubit \<times> PhysicalQubit) list" where
  "get_candidate_swaps set_order topo current_layout front_layer =
     (case candidate_loop topo
             (physical_qubits_in_front current_layout (logical_qubits_in_front front_layer []) []) [] of
        Inl e \<Rightarrow> Inl e
      | Inr candidate_swaps \<Rightarrow>
          Inr (map (\<lambda>(a, b). (PhysicalQubit a, PhysicalQubit b)) (set_order candidate_swaps)))"

text \<open>
  One iteration of the candidate loop of \<open>_select_best_swap\<close>. The state is the pair
  \<open>(best_swap, best_score)\<close>; \<open>best_score = None\<close> stands for \<open>float('inf')\<close>, below which
  every score lies. The swap is kept as the triple of the fields of its \<open>InsertSwapOp\<close>.
\<close>

definition combined_score :: "topology \<Rightarrow> layout \<Rightarrow> operation list \<Rightarrow> PhysicalQubit \<Rightarrow> PhysicalQubit \<Rightarrow> real" where
  "combined_score topo current_layout front_layer pq1 pq2 =
     (let potential_layout = apply_swap current_layout pq1 pq2;
          dist_score = calculate_score topo potential_layout front_layer;
          fidelity = get_fidelity topo (str_pq pq1) (str_pq pq2);
          fidelity_cost = 1 - fidelity
      in real_of_int dist_score + fidelity_cost * 10)"

fun best_swap_loop ::
  "topology \<Rightarrow> layout \<Rightarrow> operation list \<Rightarrow> (PhysicalQubit \<times> PhysicalQubit) list
   \<Rightarrow> (PhysicalQubit \<times> PhysicalQubit \<times> real) option \<times> real option
   \<Rightarrow> (PhysicalQubit \<times> PhysicalQubit \<times> real) option \<times> real option" where
  "best_swap_loop topo current_layout front_layer [] (best_swap, best_score) = (best_swap, best_score)"
| "best_swap_loop topo current_layout front_layer ((pq1, pq2) # candidate_swaps) (best_swap, best_score) =
     (let score = combined_score topo current_layout front_layer pq1 pq2;
          fidelity_cost = 1 - get_fidelity topo (str_pq pq1) (str_pq pq2)
      in if (case best_score of None \<Rightarrow> True | Some b \<Rightarrow> score < b)
         then best_swap_loop topo current_layout front_layer candidate_swaps
                (Some (pq1, pq2, fidelity_cost), Some score)
         else best_swap_loop topo current_layout front_layer candidate_swaps (best_swap, best_score))"

definition select_best_swap ::
  "((int \<times> int) list \<Rightarrow> (int \<times> int) list) \<Rightarrow> topology \<Rightarrow> layout \<Rightarrow> operation list
   \<Rightarrow> error + (PhysicalQubit \<times> PhysicalQubit \<times> real) option" where
  "select_best_swap set_order topo current_layout front_layer =
     (if front_layer = [] then Inr None
      else (case get_candidate_swaps set_order topo current_layout front_layer of
              Inl e \<Rightarrow> Inl e
            | Inr candidate_swaps \<Rightarrow>
                (if candidate_swaps = [] then Inr None
                 else Inr (fst (best_swap_loop topo current_layout front_layer candidate_swaps (None, None))))))"

text \<open>
  The state of the pass: the layout, the operations emitted so far, and the operations
  for which the warning \<open>No SWAP candidates found\<close> was printed.
\<close>

record pass_state =
  current_layout :: layout
  optimized_ops :: "operation list"
  warnings :: "operation list"

text \<open>
  The inner \<open>while not are_adjacent(pq1, pq2)\<close> loop for the two-qubit gate \<open>op\<close> at the
  head of \<open>remaining_ops\<close>. Nothing bounds the number of iterations, so the loop is a
  partial function: \<open>None\<close> is a run that never leaves the loop. On exit it returns the
  state and \<open>num_swaps_for_gate\<close>.
\<close>

partial_function (option) swap_loop ::
  "((int \<times> int) list \<Rightarrow> (int \<times> int) list) \<Rightarrow> topology \<Rightarrow> operation list \<Rightarrow> operation
   \<Rightarrow> PhysicalQubit \<Rightarrow> PhysicalQubit \<Rightarrow> operation list \<Rightarrow> nat \<Rightarrow> pass_state
   \<Rightarrow> (error + pass_state \<times> nat) option" where
  "swap_loop set_order topo remaining_ops op pq1 pq2 front_layer num_swaps_for_gate st =
     (if are_adjacent topo (str_pq pq1) (str_pq pq2) then Some (Inr (st, num_swaps_for_gate))
      else (case select_best_swap set_order topo (current_layout st) front_layer of
              Inl e \<Rightarrow> Some (Inl e)
            | Inr None \<Rightarrow> Some (Inr (st\<lparr>warnings := warnings st @ [op]\<rparr>, num_swaps_for_gate))
            | Inr (Some (q1, q2, c)) \<Rightarrow>
                (let st' = st\<lparr>optimized_ops := optimized_ops st @ [InsertSwapOp q1 q2 c],
                              current_layout := apply_swap (current_layout st) q1 q2\<rparr>
                 in (case get_physical_qubits (current_layout st') (control op) (target op) of
                       Inl e \<Rightarrow> Some (Inl e)
                     | Inr (pq1', pq2') \<Rightarrow>
                         swap_loop set_order topo remaining_ops op pq1' pq2'
                           (build_front_layer remaining_ops) (Suc num_swaps_for_gate) st'))))"

declare swap_loop.simps [code]

text \<open>The outer \<open>while op_index < len(remaining_ops)\<close> loop, on the operations from \<open>op_index\<close> on.\<close>

fun optimize_loop ::
  "((int \<times> int) list \<Rightarrow> (int \<times> int) list) \<Rightarrow> topology \<Rightarrow> operation list \<Rightarrow> pass_state
   \<Rightarrow> (error + pass_state) option" where
  "optimize_loop set_order topo [] st = Some (Inr st)"
| "optimize_loop set_order topo (SingleQubitGateOp g q # ops) st =
     optimize_loop set_order topo ops (st\<lparr>optimized_ops := optimized_ops st @ [SingleQubitGateOp g q]\<rparr>)"
| "optimize_loop set_order topo (TryTwoQubitOp g c t # ops) st =
     (case get_physical_qubits (current_layout st) c t of
        Inl e \<Rightarrow> Some (Inl e)
      | Inr (pq1, pq2) \<Rightarrow>
          (case swap_loop set_order topo (TryTwoQubitOp g c t # ops) (TryTwoQubitOp g c t) pq1 pq2
                  (build_front_layer (TryTwoQubitOp g c t # ops)) 0 st of
             None \<Rightarrow> None
           | Some (Inl e) \<Rightarrow> Some (Inl e)
           | Some (Inr (st', num_swaps_for_gate)) \<Rightarrow>
               (let st'' = (if num_swaps_for_gate > 0
                            then st'\<lparr>optimized_ops := optimized_ops st' @ [CurrentLayoutOp (current_layout st')]\<rparr>
                            else st')
                in optimize_loop set_order topo ops
                     (st''\<lparr>optimized_ops := optimized_ops st'' @ [TryTwoQubitOp g c t]\<rparr>))))"
| "optimize_loop set_order topo (op # ops) st =
     optimize_loop set_order topo ops (st\<lparr>optimized_ops := optimized_ops st @ [op]\<rparr>)"

text \<open>The first loop of \<open>optimize\<close>: the set of logical qubits the gates refer to.\<close>

fun logical_qubits :: "operation list \<Rightarrow> LogicalQubit list \<Rightarrow> LogicalQubit list" where
  "logical_qubits [] acc = acc"
| "logical_qubits (TryTwoQubitOp g c t # ops) acc = logical_qubits ops (set_add t (set_add c acc))"
| "logical_qubits (SingleQubitGateOp g q # ops) acc = logical_qubits ops (set_add q acc)"
| "logical_qubits (_ # ops) acc = logical_qubits ops acc"

definition num_qubits_of :: "operation list \<Rightarrow> int" where
  "num_qubits_of ops =
     (let lqs = logical_qubits ops []
      in if lqs \<noteq> [] then Max (set (map lq_id lqs)) + 1 else 0)"

text \<open>
  \<open>optimize\<close> (and \<open>run_optimizer\<close>, which calls it on a fresh pass object): the result is
  the list of operations of the returned IR together with the warnings printed.
\<close>

definition optimize ::
  "((int \<times> int) list \<Rightarrow> (int \<times> int) list) \<Rightarrow> topology \<Rightarrow> operation list
   \<Rightarrow> (error + operation list \<times> operation list) option" where
  "optimize set_order topo ir =
     (let initial_layout = initialize_layout (num_qubits_of ir)
      in (case optimize_loop set_order topo ir
                \<lparr>current_layout = initial_layout, optimized_ops = [CurrentLayoutOp initial_layout], warnings = []\<rparr> of
            None \<Rightarrow> None
          | Some (Inl e) \<Rightarrow> Some (Inl e)
          | Some (Inr st) \<Rightarrow> Some (Inr (optimized_ops st, warnings st))))"

section \<open>Properties of the front layer\<close>

fun is_two_qubit :: "operation \<Rightarrow> bool" where
  "is_two_qubit (TryTwoQubitOp g c t) = True"
| "is_two_qubit _ = False"

text \<open>The logical qubits used by a list of two-qubit gates.\<close>

definition used_by :: "operation list \<Rightarrow> LogicalQubit set" where
  "used_by gs = control ` set gs \<union> target ` set gs"

text \<open>
  A list of two-qubit gates is independent from a set of used qubits when every gate has
  both operands outside that set and outside the operands of the gates before it.
\<close>

fun independent_from :: "LogicalQubit set \<Rightarrow> operation list \<Rightarrow> bool" where
  "independent_from U [] = True"
| "independent_from U (g # gs) =
     (control g \<notin> U \<and> target g \<notin> U \<and> independent_from (insert (target g) (insert (control g) U)) gs)"

definition clashes :: "operation \<Rightarrow> LogicalQubit set \<Rightarrow> bool" where
  "clashes g U = (control g \<in> U \<or> target g \<in> U)"

lemma front_layer_loop_char:
  "\<exists>pre rest. front_layer_loop ops acc U = acc @ pre \<and> filter is_two_qubit ops = pre @ rest \<and>
      independent_from U pre \<and> (rest = [] \<or> clashes (hd rest) (U \<union> used_by pre))"
proof (induction ops acc U rule: front_layer_loop.induct)
  case (1 front_layer used_qubits)
  show ?case by simp
next
  case (2 g c t ops front_layer used_qubits)
  show ?case
  proof (cases "c \<notin> used_qubits \<and> t \<notin> used_qubits")
    case True
    with 2 obtain pre rest where
      h: "front_layer_loop ops (front_layer @ [TryTwoQubitOp g c t]) (insert t (insert c used_qubits))
            = (front_layer @ [TryTwoQubitOp g c t]) @ pre"
         "filter is_two_qubit ops = pre @ rest"
         "independent_from (insert t (insert c used_qubits)) pre"
         "rest = [] \<or> clashes (hd rest) (insert t (insert c used_qubits) \<union> used_by pre)"
      by blast
    let ?pre = "TryTwoQubitOp g c t # pre"
    have u: "used_qubits \<union> used_by ?pre = insert t (insert c used_qubits) \<union> used_by pre"
      by (auto simp: used_by_def)
    have "front_layer_loop (TryTwoQubitOp g c t # ops) front_layer used_qubits = front_layer @ ?pre"
      using True h(1) by simp
    moreover have "filter is_two_qubit (TryTwoQubitOp g c t # ops) = ?pre @ rest"
      using h(2) by simp
    moreover have "independent_from used_qubits ?pre" using True h(3) by simp
    moreover have "rest = [] \<or> clashes (hd rest) (used_qubits \<union> used_by ?pre)"
      using h(4) unfolding u .
    ultimately show ?thesis by blast
  next
    case False
    have "front_layer_loop (TryTwoQubitOp g c t # ops) front_layer used_qubits = front_layer @ []"
      using False by auto
    moreover have "filter is_two_qubit (TryTwoQubitOp g c t # ops) = [] @ (TryTwoQubitOp g c t # filter is_two_qubit ops)"
      by simp
    moreover have "clashes (hd (TryTwoQubitOp g c t # filter is_two_qubit ops)) (used_qubits \<union> used_by [])"
      using False by (auto simp: clashes_def used_by_def)
    ultimately show ?thesis by (metis independent_from.simps(1))
  qed
qed simp_all

text \<open>
  Claim C6. The front layer is the result of one forward walk over the operations: the
  operations that are not two-qubit gates are skipped without marking anything used, every
  two-qubit gate whose control and target are both unused so far is appended and marks both
  used, and the walk stops at the first two-qubit gate that shares a qubit with the gates
  collected. Equivalently: the front layer is a prefix of the two-qubit gates of the list,
  in program order; every gate in it has both operands outside the operands of the gates
  before it; and the two-qubit gate that follows the prefix, if there is one, has an
  operand used by the front layer.
\<close>

theorem build_front_layer_maximal_independent_prefix:
  "\<exists>rest. filter is_two_qubit ops = build_front_layer ops @ rest \<and>
      independent_from {} (build_front_layer ops) \<and>
      (rest = [] \<or> clashes (hd rest) (used_by (build_front_layer ops)))"
  using front_layer_loop_char[of ops "[]" "{}"] unfolding build_front_layer_def by auto

section \<open>Properties of the layout\<close>

lemma find_holders_keys:
  "find_holders items pq1 pq2 (a, b) = (a', b') \<Longrightarrow>
   (\<And>x. a = Some x \<Longrightarrow> x \<in> K) \<Longrightarrow> (\<And>x. b = Some x \<Longrightarrow> x \<in> K) \<Longrightarrow> fst ` set items \<subseteq> K \<Longrightarrow>
   (\<forall>x. a' = Some x \<longrightarrow> x \<in> K) \<and> (\<forall>x. b' = Some x \<longrightarrow> x \<in> K)"
proof (induction items arbitrary: a b)
  case Nil
  then show ?case by simp
next
  case (Cons item items)
  obtain lq pq where item: "item = (lq, pq)" by (cases item)
  from Cons.prems(4) item have lqK: "lq \<in> K" and sub: "fst ` set items \<subseteq> K" by auto
  show ?case
  proof (cases "pq = pq1")
    case True
    with Cons.prems(1) item have "find_holders items pq1 pq2 (Some lq, b) = (a', b')" by simp
    from Cons.IH[OF this _ _ sub] lqK Cons.prems(3) show ?thesis by simp
  next
    case n1: False
    show ?thesis
    proof (cases "pq = pq2")
      case True
      with n1 Cons.prems(1) item have "find_holders items pq1 pq2 (a, Some lq) = (a', b')" by simp
      from Cons.IH[OF this _ _ sub] lqK Cons.prems(2) show ?thesis by simp
    next
      case False
      with n1 Cons.prems(1) item have "find_holders items pq1 pq2 (a, b) = (a', b')" by simp
      from Cons.IH[OF this _ _ sub] Cons.prems(2,3) show ?thesis by simp
    qed
  qed
qed

lemma apply_swap_keys: "map fst (apply_swap l pq1 pq2) = map fst l"
proof -
  obtain a b where h: "find_holders l pq1 pq2 (None, None) = (a, b)"
    by (cases "find_holders l pq1 pq2 (None, None)")
  from find_holders_keys[OF h, of "fst ` set l"]
  have k: "\<And>x. a = Some x \<Longrightarrow> x \<in> fst ` set l" "\<And>x. b = Some x \<Longrightarrow> x \<in> fst ` set l"
    by auto
  define l1 where "l1 = (case a of None \<Rightarrow> l | Some x \<Rightarrow> AList.update x pq2 l)"
  have l1: "map fst l1 = map fst l"
    using k(1) by (cases a) (auto simp: l1_def update_keys)
  have "map fst (case b of None \<Rightarrow> l1 | Some y \<Rightarrow> AList.update y pq1 l1) = map fst l"
    using k(2) l1 by (cases b) (auto simp: update_keys)
  then show ?thesis
    unfolding l1_def by (simp add: apply_swap_def h Let_def)
qed

lemma get_physical_qubits_ok:
  "lq1 \<in> set (map fst l) \<Longrightarrow> lq2 \<in> set (map fst l) \<Longrightarrow> \<exists>p. get_physical_qubits l lq1 lq2 = Inr p"
proof -
  assume a: "lq1 \<in> set (map fst l)" "lq2 \<in> set (map fst l)"
  then obtain p1 p2 where "map_of l lq1 = Some p1" "map_of l lq2 = Some p2"
    by (metis list.set_map map_of_eq_None_iff not_Some_eq)
  then show ?thesis by (simp add: get_physical_qubits_def)
qed

lemma get_physical_qubits_keys:
  "get_physical_qubits l lq1 lq2 = Inr p \<Longrightarrow> lq1 \<in> set (map fst l) \<and> lq2 \<in> set (map fst l)"
  by (auto simp: get_physical_qubits_def split: option.splits dest!: map_of_SomeD intro: rev_image_eqI)

section \<open>Properties of the candidate selection\<close>

lemma neighbor_swaps_error: "neighbor_swaps p ns cs = Inl e \<Longrightarrow> e = IndexError \<or> e = ValueError"
proof (induction ns arbitrary: cs)
  case Nil
  then show ?case by simp
next
  case (Cons n ns)
  show ?case
  proof (cases "length n < 2")
    case True
    with Cons.prems show ?thesis by simp
  next
    case False
    show ?thesis
    proof (cases "int_of_char (n ! 1)")
      case (Inl e')
      with False Cons.prems have "e = e'" by simp
      moreover from Inl have "e' = ValueError"
        by (auto simp: int_of_char_def split: if_splits)
      ultimately show ?thesis by simp
    next
      case (Inr i)
      with False Cons.prems Cons.IH show ?thesis by simp
    qed
  qed
qed

lemma candidate_loop_error: "candidate_loop topo pqs cs = Inl e \<Longrightarrow> e = IndexError \<or> e = ValueError"
proof (induction pqs arbitrary: cs)
  case Nil
  then show ?case by simp
next
  case (Cons pq pqs)
  show ?case
  proof (cases "neighbor_swaps (pq_id pq) (get_neighbors topo (str_pq pq)) cs")
    case (Inl e')
    with Cons.prems have "e = e'" by simp
    with neighbor_swaps_error[OF Inl] show ?thesis by simp
  next
    case (Inr cs')
    with Cons.prems Cons.IH show ?thesis by simp
  qed
qed

lemma select_best_swap_error:
  "select_best_swap set_order topo l fl = Inl e \<Longrightarrow> e = IndexError \<or> e = ValueError"
  by (auto simp: select_best_swap_def get_candidate_swaps_def split: if_splits sum.splits
      dest: candidate_loop_error)

section \<open>Properties of the swap loop\<close>

fun is_swap :: "operation \<Rightarrow> bool" where
  "is_swap (InsertSwapOp p1 p2 c) = True"
| "is_swap _ = False"

fun is_layout_mark :: "operation \<Rightarrow> bool" where
  "is_layout_mark (CurrentLayoutOp l) = True"
| "is_layout_mark _ = False"

text \<open>The state after one iteration of the swap loop that has chosen the swap \<open>(q1, q2, c)\<close>.\<close>

definition after_swap :: "pass_state \<Rightarrow> PhysicalQubit \<Rightarrow> PhysicalQubit \<Rightarrow> real \<Rightarrow> pass_state" where
  "after_swap st q1 q2 c =
     st\<lparr>optimized_ops := optimized_ops st @ [InsertSwapOp q1 q2 c],
        current_layout := apply_swap (current_layout st) q1 q2\<rparr>"

text \<open>
  An invariant rule for the runs of the swap loop that return: an invariant \<open>I\<close> of the loop
  variables that holds at the start and is kept by an iteration gives \<open>Q\<close> of the result,
  when \<open>Q\<close> holds at each of the four exits of the loop.
\<close>

lemma swap_loop_rule:
  assumes run: "swap_loop set_order topo remaining_ops op pq1 pq2 front_layer n st = Some y"
    and init: "I pq1 pq2 front_layer n st"
    and step: "\<And>pq1 pq2 fl n st q1 q2 c p1 p2.
        \<lbrakk>I pq1 pq2 fl n st; \<not> are_adjacent topo (str_pq pq1) (str_pq pq2);
         select_best_swap set_order topo (current_layout st) fl = Inr (Some (q1, q2, c));
         get_physical_qubits (current_layout (after_swap st q1 q2 c)) (control op) (target op) = Inr (p1, p2)\<rbrakk>
        \<Longrightarrow> I p1 p2 (build_front_layer remaining_ops) (Suc n) (after_swap st q1 q2 c)"
    and exit_adjacent: "\<And>pq1 pq2 fl n st.
        \<lbrakk>I pq1 pq2 fl n st; are_adjacent topo (str_pq pq1) (str_pq pq2)\<rbrakk> \<Longrightarrow> Q (Inr (st, n))"
    and exit_no_candidate: "\<And>pq1 pq2 fl n st.
        \<lbrakk>I pq1 pq2 fl n st; \<not> are_adjacent topo (str_pq pq1) (str_pq pq2);
         select_best_swap set_order topo (current_layout st) fl = Inr None\<rbrakk>
        \<Longrightarrow> Q (Inr (st\<lparr>warnings := warnings st @ [op]\<rparr>, n))"
    and exit_select_error: "\<And>pq1 pq2 fl n st e.
        \<lbrakk>I pq1 pq2 fl n st; \<not> are_adjacent topo (str_pq pq1) (str_pq pq2);
         select_best_swap set_order topo (current_layout st) fl = Inl e\<rbrakk> \<Longrightarrow> Q (Inl e)"
    and exit_lookup_error: "\<And>pq1 pq2 fl n st q1 q2 c e.
        \<lbrakk>I pq1 pq2 fl n st; \<not> are_adjacent topo (str_pq pq1) (str_pq pq2);
         select_best_swap set_order topo (current_layout st) fl = Inr (Some (q1, q2, c));
         get_physical_qubits (current_layout (after_swap st q1 q2 c)) (control op) (target op) = Inl e\<rbrakk>
        \<Longrightarrow> Q (Inl e)"
  shows "Q y"
proof -
  have "I pq1 pq2 front_layer n st \<longrightarrow> Q y"
  proof (rule swap_loop.raw_induct[where P = "\<lambda>so tp rem_ops op' pq1 pq2 fl n st y.
            so = set_order \<and> tp = topo \<and> rem_ops = remaining_ops \<and> op' = op \<longrightarrow> I pq1 pq2 fl n st \<longrightarrow> Q y",
          OF _ run, simplified], goal_cases)
    case (1 f so tp rem_ops op' pq1 pq2 fl n st y)
    show ?case
    proof (intro impI)
      assume eqs: "so = set_order \<and> tp = topo \<and> rem_ops = remaining_ops \<and> op' = op" and i: "I pq1 pq2 fl n st"
      note body = 1(2)[unfolded after_swap_def[symmetric]]
      show "Q y"
      proof (cases "are_adjacent topo (str_pq pq1) (str_pq pq2)")
        case True
        with body eqs have "y = Inr (st, n)" by simp
        with exit_adjacent[OF i True] show ?thesis by simp
      next
        case na: False
        show ?thesis
        proof (cases "select_best_swap set_order topo (current_layout st) fl")
          case (Inl e)
          with na body eqs have "y = Inl e" by simp
          with exit_select_error[OF i na Inl] show ?thesis by simp
        next
          case (Inr best)
          show ?thesis
          proof (cases best)
            case None
            with na Inr body eqs have "y = Inr (st\<lparr>warnings := warnings st @ [op]\<rparr>, n)" by simp
            with exit_no_candidate[OF i na Inr[unfolded None]] show ?thesis by simp
          next
            case (Some sw)
            obtain q1 q2 c where sw: "sw = (q1, q2, c)" by (cases sw)
            note sel = Inr[unfolded Some sw]
            show ?thesis
            proof (cases "get_physical_qubits (current_layout (after_swap st q1 q2 c)) (control op) (target op)")
              case (Inl e)
              with na sel body eqs have "y = Inl e" by (simp add: Let_def after_swap_def)
              with exit_lookup_error[OF i na sel Inl] show ?thesis by simp
            next
              case r: (Inr p)
              obtain p1 p2 where p: "p = (p1, p2)" by (cases p)
              from na sel r p body eqs
              have "f set_order topo remaining_ops op p1 p2 (build_front_layer remaining_ops) (Suc n)
                      (after_swap st q1 q2 c) = Some y"
                by (simp add: Let_def after_swap_def)
              from 1(1)[OF this] step[OF i na sel r[unfolded p]] show ?thesis by simp
            qed
          qed
        qed
      qed
    qed
  qed
  with init show ?thesis by simp
qed

text \<open>
  What a run of the swap loop that returns has done since a state \<open>st0\<close> with counter \<open>n0\<close>:
  it has appended \<open>n - n0\<close> swaps and nothing else to the output, it has kept the keys of the
  layout in their order, and when it has inserted no swap the layout is unchanged.
\<close>

definition loop_effect :: "nat \<Rightarrow> pass_state \<Rightarrow> nat \<Rightarrow> pass_state \<Rightarrow> bool" where
  "loop_effect n0 st0 n st =
     (n0 \<le> n \<and> map fst (current_layout st) = map fst (current_layout st0) \<and>
      (\<exists>sw. optimized_ops st = optimized_ops st0 @ sw \<and> list_all is_swap sw \<and> length sw = n - n0) \<and>
      (n = n0 \<longrightarrow> current_layout st = current_layout st0))"

lemma loop_effect_refl: "loop_effect n st n st"
  by (simp add: loop_effect_def)

lemma loop_effect_warn: "loop_effect n0 st0 n st \<Longrightarrow> loop_effect n0 st0 n (st\<lparr>warnings := w\<rparr>)"
  by (simp add: loop_effect_def)

lemma loop_effect_step:
  assumes "loop_effect n0 st0 n st"
  shows "loop_effect n0 st0 (Suc n) (after_swap st q1 q2 c)"
proof -
  from assms obtain sw where
    h: "n0 \<le> n" "map fst (current_layout st) = map fst (current_layout st0)"
       "optimized_ops st = optimized_ops st0 @ sw" "list_all is_swap sw" "length sw = n - n0"
    by (auto simp: loop_effect_def)
  have "optimized_ops (after_swap st q1 q2 c) = optimized_ops st0 @ (sw @ [InsertSwapOp q1 q2 c])"
    using h(3) by (simp add: after_swap_def)
  moreover have "list_all is_swap (sw @ [InsertSwapOp q1 q2 c])" using h(4) by simp
  moreover have "length (sw @ [InsertSwapOp q1 q2 c]) = Suc n - n0" using h(1,5) by simp
  ultimately have "\<exists>sw. optimized_ops (after_swap st q1 q2 c) = optimized_ops st0 @ sw \<and>
      list_all is_swap sw \<and> length sw = Suc n - n0"
    by blast
  moreover have "map fst (current_layout (after_swap st q1 q2 c)) = map fst (current_layout st0)"
    using h(2) by (simp add: after_swap_def apply_swap_keys)
  ultimately show ?thesis using h(1) by (simp add: loop_effect_def)
qed

lemma swap_loop_effect:
  assumes "swap_loop set_order topo remaining_ops op pq1 pq2 front_layer n st = Some (Inr (st', n'))"
  shows "loop_effect n st n' st'"
proof -
  have "\<forall>s k. Inr (st', n') = (Inr (s, k) :: error + pass_state \<times> nat) \<longrightarrow> loop_effect n st k s"
    by (rule swap_loop_rule[OF assms, where I = "\<lambda>pq1 pq2 fl k s. loop_effect n st k s"
          and Q = "\<lambda>y. \<forall>s k. y = Inr (s, k) \<longrightarrow> loop_effect n st k s"])
       (simp_all add: loop_effect_refl loop_effect_warn loop_effect_step)
  then show ?thesis by simp
qed

text \<open>
  The exits of the swap loop: when it returns a state, the gate's operands are in the
  layout and either they are on adjacent physical qubits and no warning was added, or they
  are not, the selection found no swap under the final layout, and the warning was added.
\<close>

definition loop_exit ::
  "((int \<times> int) list \<Rightarrow> (int \<times> int) list) \<Rightarrow> topology \<Rightarrow> operation list \<Rightarrow> operation
   \<Rightarrow> operation list \<Rightarrow> pass_state \<Rightarrow> bool" where
  "loop_exit set_order topo remaining_ops op w0 st =
     (case get_physical_qubits (current_layout st) (control op) (target op) of
        Inl e \<Rightarrow> False
      | Inr (p1, p2) \<Rightarrow>
          (are_adjacent topo (str_pq p1) (str_pq p2) \<and> warnings st = w0) \<or>
          (\<not> are_adjacent topo (str_pq p1) (str_pq p2) \<and> warnings st = w0 @ [op] \<and>
           select_best_swap set_order topo (current_layout st) (build_front_layer remaining_ops) = Inr None))"

lemma swap_loop_exit:
  assumes run: "swap_loop set_order topo remaining_ops op pq1 pq2 (build_front_layer remaining_ops) n st
                  = Some (Inr (st', n'))"
    and pq: "get_physical_qubits (current_layout st) (control op) (target op) = Inr (pq1, pq2)"
  shows "loop_exit set_order topo remaining_ops op (warnings st) st'"
proof -
  let ?I = "\<lambda>pq1 pq2 fl (k::nat) s.
      get_physical_qubits (current_layout s) (control op) (target op) = Inr (pq1, pq2) \<and>
      fl = build_front_layer remaining_ops \<and> warnings s = warnings st"
  let ?Q = "\<lambda>y. \<forall>s k. y = (Inr (s, k) :: error + pass_state \<times> nat) \<longrightarrow>
      loop_exit set_order topo remaining_ops op (warnings st) s"
  have "?Q (Inr (st', n'))"
  proof (rule swap_loop_rule[OF run, where I = ?I and Q = ?Q], goal_cases)
    case 1
    show ?case using pq by simp
  next
    case (2 pq1 pq2 fl n st q1 q2 c p1 p2)
    then show ?case by (simp add: after_swap_def)
  next
    case (3 pq1 pq2 fl n st)
    then show ?case by (simp add: loop_exit_def)
  next
    case (4 pq1 pq2 fl n st)
    then show ?case by (simp add: loop_exit_def)
  qed simp_all
  then show ?thesis by simp
qed

lemma swap_loop_no_KeyError:
  assumes run: "swap_loop set_order topo remaining_ops op pq1 pq2 front_layer n st = Some y"
    and keys: "control op \<in> set (map fst (current_layout st))" "target op \<in> set (map fst (current_layout st))"
  shows "y \<noteq> Inl KeyError"
proof (rule swap_loop_rule[OF run, where
      I = "\<lambda>pq1 pq2 fl (k::nat) s. map fst (current_layout s) = map fst (current_layout st)"
      and Q = "\<lambda>y. y \<noteq> Inl KeyError"], goal_cases)
  case (5 pq1 pq2 fl n st e)
  from select_best_swap_error[OF 5(3)] show ?case by auto
next
  case (6 pq1 pq2 fl n s q1 q2 c e)
  have "map fst (current_layout (after_swap s q1 q2 c)) = map fst (current_layout st)"
    using 6(1) by (simp add: after_swap_def apply_swap_keys)
  with keys get_physical_qubits_ok[of "control op" "current_layout (after_swap s q1 q2 c)" "target op"] 6(4)
  show ?case by auto
qed (simp_all add: after_swap_def apply_swap_keys)

section \<open>Properties of the routing loop\<close>

text \<open>The input contract: single-qubit and two-qubit gates only.\<close>

fun is_gate :: "operation \<Rightarrow> bool" where
  "is_gate (SingleQubitGateOp g q) = True"
| "is_gate (TryTwoQubitOp g c t) = True"
| "is_gate _ = False"

text \<open>
  The state in which the outer loop goes on after the swap loop for the gate \<open>op\<close> has
  returned \<open>st\<close> and \<open>k\<close>: a layout mark when swaps were inserted, then the gate.
\<close>

definition gate_emitted :: "pass_state \<Rightarrow> nat \<Rightarrow> operation \<Rightarrow> pass_state" where
  "gate_emitted st k op =
     st\<lparr>optimized_ops := optimized_ops st @ (if k > 0 then [CurrentLayoutOp (current_layout st)] else []) @ [op]\<rparr>"

lemma optimize_loop_two_qubit:
  assumes "optimize_loop set_order topo (TryTwoQubitOp g c t # ops) st = Some r"
  obtains (lookup_error) e where
      "get_physical_qubits (current_layout st) c t = Inl e" "r = Inl e"
    | (loop_error) pq1 pq2 e where
      "get_physical_qubits (current_layout st) c t = Inr (pq1, pq2)"
      "swap_loop set_order topo (TryTwoQubitOp g c t # ops) (TryTwoQubitOp g c t) pq1 pq2
         (build_front_layer (TryTwoQubitOp g c t # ops)) 0 st = Some (Inl e)"
      "r = Inl e"
    | (routed) pq1 pq2 st' k where
      "get_physical_qubits (current_layout st) c t = Inr (pq1, pq2)"
      "swap_loop set_order topo (TryTwoQubitOp g c t # ops) (TryTwoQubitOp g c t) pq1 pq2
         (build_front_layer (TryTwoQubitOp g c t # ops)) 0 st = Some (Inr (st', k))"
      "optimize_loop set_order topo ops (gate_emitted st' k (TryTwoQubitOp g c t)) = Some r"
proof (cases "get_physical_qubits (current_layout st) c t")
  case (Inl e)
  with assms have "r = Inl e" by simp
  with Inl lookup_error show ?thesis by blast
next
  case (Inr p)
  obtain pq1 pq2 where p: "p = (pq1, pq2)" by (cases p)
  note pq = Inr[unfolded p]
  let ?loop = "swap_loop set_order topo (TryTwoQubitOp g c t # ops) (TryTwoQubitOp g c t) pq1 pq2
         (build_front_layer (TryTwoQubitOp g c t # ops)) 0 st"
  show ?thesis
  proof (cases ?loop)
    case None
    with assms pq show ?thesis by simp
  next
    case (Some y)
    show ?thesis
    proof (cases y)
      case (Inl e)
      with Some assms pq have "r = Inl e" by simp
      with Some Inl pq loop_error show ?thesis by blast
    next
      case r: (Inr sk)
      obtain st' k where sk: "sk = (st', k)" by (cases sk)
      have "gate_emitted st' k (TryTwoQubitOp g c t) =
              (if 0 < k then st'\<lparr>optimized_ops := optimized_ops st' @ [CurrentLayoutOp (current_layout st')]\<rparr>
               else st')\<lparr>optimized_ops := optimized_ops (if 0 < k then st'\<lparr>optimized_ops := optimized_ops st' @ [CurrentLayoutOp (current_layout st')]\<rparr>
               else st') @ [TryTwoQubitOp g c t]\<rparr>"
        by (simp add: gate_emitted_def)
      with assms pq Some r sk
      have "optimize_loop set_order topo ops (gate_emitted st' k (TryTwoQubitOp g c t)) = Some r"
        by (simp add: Let_def)
      with Some r sk pq routed show ?thesis by blast
    qed
  qed
qed

text \<open>Every operation other than a two-qubit gate is appended to the output as it is.\<close>

lemma optimize_loop_other:
  "\<not> is_two_qubit op \<Longrightarrow>
   optimize_loop set_order topo (op # ops) st =
     optimize_loop set_order topo ops (st\<lparr>optimized_ops := optimized_ops st @ [op]\<rparr>)"
  by (cases op) simp_all

lemma gate_emitted_ops:
  assumes "loop_effect 0 st k st'"
  shows "\<exists>ins. optimized_ops (gate_emitted st' k op) = optimized_ops st @ ins @ [op] \<and>
           list_all (\<lambda>x. is_swap x \<or> is_layout_mark x) ins"
proof -
  from assms obtain sw where sw: "optimized_ops st' = optimized_ops st @ sw" "list_all is_swap sw"
    by (auto simp: loop_effect_def)
  let ?ins = "sw @ (if k > 0 then [CurrentLayoutOp (current_layout st')] else [])"
  have "optimized_ops (gate_emitted st' k op) = optimized_ops st @ ?ins @ [op]"
    using sw(1) by (simp add: gate_emitted_def)
  moreover have "list_all (\<lambda>x. is_swap x \<or> is_layout_mark x) ?ins"
    using sw(2) by (auto simp: list_all_iff)
  ultimately show ?thesis by blast
qed


lemma optimize_loop_subseq:
  "optimize_loop set_order topo ops st = Some (Inr st') \<Longrightarrow>
   \<exists>ys. optimized_ops st' = optimized_ops st @ ys \<and> subseq ops ys"
proof (induction ops arbitrary: st)
  case Nil
  then show ?case by simp
next
  case (Cons op ops)
  show ?case
  proof (cases "is_two_qubit op")
    case False
    with Cons.prems have "optimize_loop set_order topo ops (st\<lparr>optimized_ops := optimized_ops st @ [op]\<rparr>) = Some (Inr st')"
      by (simp add: optimize_loop_other)
    from Cons.IH[OF this] obtain ys where "optimized_ops st' = (optimized_ops st @ [op]) @ ys" "subseq ops ys"
      by auto
    then have "optimized_ops st' = optimized_ops st @ (op # ys) \<and> subseq (op # ops) (op # ys)" by simp
    then show ?thesis by blast
  next
    case True
    then obtain g c t where op: "op = TryTwoQubitOp g c t" by (cases op) auto
    from Cons.prems[unfolded op] show ?thesis
    proof (cases rule: optimize_loop_two_qubit)
      case (routed pq1 pq2 st1 k)
      from gate_emitted_ops[OF swap_loop_effect[OF routed(2)], of op] obtain ins where
        ins: "optimized_ops (gate_emitted st1 k op) = optimized_ops st @ ins @ [op]"
        by blast
      from Cons.IH[OF routed(3)[folded op]] obtain ys where
        ys: "optimized_ops st' = optimized_ops (gate_emitted st1 k op) @ ys" "subseq ops ys"
        by auto
      have "optimized_ops st' = optimized_ops st @ (ins @ op # ys)" using ys(1) ins by simp
      moreover have "subseq (op # ops) (ins @ op # ys)"
        using ys(2) by (simp add: list_emb_append2)
      ultimately show ?thesis by blast
    qed simp_all
  qed
qed

lemma optimize_Inr:
  assumes "optimize set_order topo ir = Some (Inr (out, w))"
  obtains st where
    "optimize_loop set_order topo ir
       \<lparr>current_layout = initialize_layout (num_qubits_of ir),
        optimized_ops = [CurrentLayoutOp (initialize_layout (num_qubits_of ir))], warnings = []\<rparr> = Some (Inr st)"
    "out = optimized_ops st" "w = warnings st"
  using assms by (auto simp: optimize_def Let_def split: option.splits sum.splits)

section \<open>Gate preservation\<close>



section \<open>Malformed input\<close>

text \<open>
  Claim C9 as the specification states it: an input that violates well-formedness makes the
  pass fail with a malformed-input error and emit no IR. The pass has no validation: for a
  two-qubit gate whose control is its target it returns an IR (here on qubits outside the
  three-qubit device, where the selection finds no candidate), and operations that only
  the router should produce are copied to the output.
\<close>

theorem malformed_input_counterexample:
  "optimize (\<lambda>xs. xs) LinearTopology [TryTwoQubitOp ''CNOT'' (LogicalQubit 3) (LogicalQubit 3)] =
     Some (Inr ([CurrentLayoutOp [(LogicalQubit 0, PhysicalQubit 0), (LogicalQubit 1, PhysicalQubit 1),
                                  (LogicalQubit 2, PhysicalQubit 2), (LogicalQubit 3, PhysicalQubit 3)],
                 TryTwoQubitOp ''CNOT'' (LogicalQubit 3) (LogicalQubit 3)],
                [TryTwoQubitOp ''CNOT'' (LogicalQubit 3) (LogicalQubit 3)])) \<and>
   optimize (\<lambda>xs. xs) LinearTopology [InsertSwapOp (PhysicalQubit 0) (PhysicalQubit 2) 0] =
     Some (Inr ([CurrentLayoutOp [], InsertSwapOp (PhysicalQubit 0) (PhysicalQubit 2) 0], []))"
  by code_simp

text \<open>
  Claim C9, amended. The pass does not validate its input. Whenever it returns an IR, for
  a well-formed input or not, that IR is the mark of the identity layout followed by a
  list that contains every operation of the input, in order.
\<close>

theorem no_input_validation:
  assumes "optimize set_order topo ir = Some (Inr (out, w))"
  shows "\<exists>ys. out = CurrentLayoutOp (initialize_layout (num_qubits_of ir)) # ys \<and> subseq ir ys"
proof -
  from assms obtain st where
    st: "optimize_loop set_order topo ir
       \<lparr>current_layout = initialize_layout (num_qubits_of ir),
        optimized_ops = [CurrentLayoutOp (initialize_layout (num_qubits_of ir))], warnings = []\<rparr> = Some (Inr st)"
      "out = optimized_ops st"
    by (auto elim: optimize_Inr)
  from optimize_loop_subseq[OF st(1)] st(2) show ?thesis by simp
qed

theorem no_input_validation_witness:
  "optimize (\<lambda>xs. xs) LinearTopology
     [CurrentLayoutOp [], TryTwoQubitOp ''CNOT'' (LogicalQubit 3) (LogicalQubit 3)] =
     Some (Inr ([CurrentLayoutOp [(LogicalQubit 0, PhysicalQubit 0), (LogicalQubit 1, PhysicalQubit 1),
                                  (LogicalQubit 2, PhysicalQubit 2), (LogicalQubit 3, PhysicalQubit 3)],
                 CurrentLayoutOp [],
                 TryTwoQubitOp ''CNOT'' (LogicalQubit 3) (LogicalQubit 3)],
                [TryTwoQubitOp ''CNOT'' (LogicalQubit 3) (LogicalQubit 3)])) \<and>
   (\<exists>ys. [CurrentLayoutOp [(LogicalQubit 0, PhysicalQubit 0), (LogicalQubit 1, PhysicalQubit 1),
                           (LogicalQubit 2, PhysicalQubit 2), (LogicalQubit 3, PhysicalQubit 3)],
          CurrentLayoutOp [],
          TryTwoQubitOp ''CNOT'' (LogicalQubit 3) (LogicalQubit 3)] =
         CurrentLayoutOp (initialize_layout (num_qubits_of
            [CurrentLayoutOp [], TryTwoQubitOp ''CNOT'' (LogicalQubit 3) (LogicalQubit 3)])) # ys \<and>
         subseq [CurrentLayoutOp [], TryTwoQubitOp ''CNOT'' (LogicalQubit 3) (LogicalQubit 3)] ys)"
proof -
  have run: "optimize (\<lambda>xs. xs) LinearTopology
     [CurrentLayoutOp [], TryTwoQubitOp ''CNOT'' (LogicalQubit 3) (LogicalQubit 3)] =
     Some (Inr ([CurrentLayoutOp [(LogicalQubit 0, PhysicalQubit 0), (LogicalQubit 1, PhysicalQubit 1),
                                  (LogicalQubit 2, PhysicalQubit 2), (LogicalQubit 3, PhysicalQubit 3)],
                 CurrentLayoutOp [],
                 TryTwoQubitOp ''CNOT'' (LogicalQubit 3) (LogicalQubit 3)],
                [TryTwoQubitOp ''CNOT'' (LogicalQubit 3) (LogicalQubit 3)]))"
    by code_simp
  from run no_input_validation[OF run] show ?thesis by (intro conjI)
qed

section \<open>Identity pass-through\<close>

text \<open>A two-qubit gate lies on adjacent physical qubits under a layout.\<close>

definition adjacent_under :: "topology \<Rightarrow> layout \<Rightarrow> operation \<Rightarrow> bool" where
  "adjacent_under topo l op =
     (case get_physical_qubits l (control op) (target op) of
        Inl e \<Rightarrow> False
      | Inr (p1, p2) \<Rightarrow> are_adjacent topo (str_pq p1) (str_pq p2))"

lemma swap_loop_adjacent:
  "are_adjacent topo (str_pq pq1) (str_pq pq2) \<Longrightarrow>
   swap_loop set_order topo remaining_ops op pq1 pq2 front_layer n st = Some (Inr (st, n))"
  by (subst swap_loop.simps) simp

lemma optimize_loop_pass_through:
  "list_all (\<lambda>op. is_two_qubit op \<longrightarrow> adjacent_under topo (current_layout st) op) ops \<Longrightarrow>
   optimize_loop set_order topo ops st = Some (Inr (st\<lparr>optimized_ops := optimized_ops st @ ops\<rparr>))"
proof (induction ops arbitrary: st)
  case Nil
  then show ?case by simp
next
  case (Cons op ops)
  let ?st = "st\<lparr>optimized_ops := optimized_ops st @ [op]\<rparr>"
  from Cons.prems
  have "list_all (\<lambda>op. is_two_qubit op \<longrightarrow> adjacent_under topo (current_layout ?st) op) ops"
    by simp
  from Cons.IH[OF this]
  have ih: "optimize_loop set_order topo ops ?st = Some (Inr (st\<lparr>optimized_ops := optimized_ops st @ op # ops\<rparr>))"
    by simp
  show ?case
  proof (cases "is_two_qubit op")
    case False
    with ih show ?thesis by (simp add: optimize_loop_other)
  next
    case True
    then obtain g c t where op: "op = TryTwoQubitOp g c t" by (cases op) auto
    from Cons.prems True have "adjacent_under topo (current_layout st) op" by simp
    then obtain p1 p2 where
      pq: "get_physical_qubits (current_layout st) c t = Inr (p1, p2)"
      and adj: "are_adjacent topo (str_pq p1) (str_pq p2)"
      by (auto simp: adjacent_under_def op split: sum.splits)
    show ?thesis
      using ih by (simp add: op pq swap_loop_adjacent[OF adj])
  qed
qed

text \<open>
  Claim C8. When every two-qubit gate of the input lies on adjacent physical qubits under
  the identity layout, the pass returns, without a warning, the mark of the identity
  layout followed by the input unchanged; for an input made of gates only, that IR has no
  swap.
\<close>

theorem identity_pass_through:
  assumes "list_all is_gate ir"
    and "list_all (\<lambda>op. is_two_qubit op \<longrightarrow> adjacent_under topo (initialize_layout (num_qubits_of ir)) op) ir"
  shows "optimize set_order topo ir =
           Some (Inr (CurrentLayoutOp (initialize_layout (num_qubits_of ir)) # ir, [])) \<and>
         filter is_swap (CurrentLayoutOp (initialize_layout (num_qubits_of ir)) # ir) = []"
proof
  let ?st = "\<lparr>current_layout = initialize_layout (num_qubits_of ir),
              optimized_ops = [CurrentLayoutOp (initialize_layout (num_qubits_of ir))], warnings = []\<rparr>"
  from assms(2)
  have "list_all (\<lambda>op. is_two_qubit op \<longrightarrow> adjacent_under topo (current_layout ?st) op) ir"
    by simp
  from optimize_loop_pass_through[OF this]
  show "optimize set_order topo ir =
           Some (Inr (CurrentLayoutOp (initialize_layout (num_qubits_of ir)) # ir, []))"
    by (simp add: optimize_def Let_def)
  have "\<forall>x \<in> set ir. \<not> is_swap x"
  proof
    fix x assume "x \<in> set ir"
    with assms(1) have "is_gate x" by (simp add: list_all_iff)
    then show "\<not> is_swap x" by (cases x) simp_all
  qed
  then show "filter is_swap (CurrentLayoutOp (initialize_layout (num_qubits_of ir)) # ir) = []"
    by (simp add: filter_empty_conv)
qed

theorem identity_pass_through_witness:
  "list_all is_gate
     [SingleQubitGateOp ''H'' (LogicalQubit 0), TryTwoQubitOp ''CNOT'' (LogicalQubit 0) (LogicalQubit 1),
      TryTwoQubitOp ''CNOT'' (LogicalQubit 1) (LogicalQubit 2)] \<and>
   adjacent_under LinearTopology (initialize_layout 3) (TryTwoQubitOp ''CNOT'' (LogicalQubit 0) (LogicalQubit 1)) \<and>
   adjacent_under LinearTopology (initialize_layout 3) (TryTwoQubitOp ''CNOT'' (LogicalQubit 1) (LogicalQubit 2)) \<and>
   optimize (\<lambda>xs. xs) LinearTopology
     [SingleQubitGateOp ''H'' (LogicalQubit 0), TryTwoQubitOp ''CNOT'' (LogicalQubit 0) (LogicalQubit 1),
      TryTwoQubitOp ''CNOT'' (LogicalQubit 1) (LogicalQubit 2)] =
     Some (Inr ([CurrentLayoutOp [(LogicalQubit 0, PhysicalQubit 0), (LogicalQubit 1, PhysicalQubit 1),
                                  (LogicalQubit 2, PhysicalQubit 2)],
                 SingleQubitGateOp ''H'' (LogicalQubit 0),
                 TryTwoQubitOp ''CNOT'' (LogicalQubit 0) (LogicalQubit 1),
                 TryTwoQubitOp ''CNOT'' (LogicalQubit 1) (LogicalQubit 2)], []))"
proof -
  let ?ir = "[SingleQubitGateOp ''H'' (LogicalQubit 0), TryTwoQubitOp ''CNOT'' (LogicalQubit 0) (LogicalQubit 1),
      TryTwoQubitOp ''CNOT'' (LogicalQubit 1) (LogicalQubit 2)]"
  have n: "num_qubits_of ?ir = 3" by code_simp
  have l: "initialize_layout 3 = [(LogicalQubit 0, PhysicalQubit 0), (LogicalQubit 1, PhysicalQubit 1),
                                  (LogicalQubit 2, PhysicalQubit 2)]"
    by code_simp
  have a1: "adjacent_under LinearTopology (initialize_layout 3) (TryTwoQubitOp ''CNOT'' (LogicalQubit 0) (LogicalQubit 1))"
    by code_simp
  have a2: "adjacent_under LinearTopology (initialize_layout 3) (TryTwoQubitOp ''CNOT'' (LogicalQubit 1) (LogicalQubit 2))"
    by code_simp
  have g: "list_all is_gate ?ir" by simp
  have h: "list_all (\<lambda>op. is_two_qubit op \<longrightarrow> adjacent_under LinearTopology (initialize_layout (num_qubits_of ?ir)) op) ?ir"
    unfolding n using a1 a2 by simp
  from identity_pass_through[OF g h, of "\<lambda>xs. xs"] g a1 a2 show ?thesis
    unfolding n l by simp
qed

section \<open>Layout lookups\<close>

text \<open>The logical qubits an operation refers to, as the first loop of \<open>optimize\<close> collects them.\<close>

fun op_qubits :: "operation \<Rightarrow> LogicalQubit set" where
  "op_qubits (TryTwoQubitOp g c t) = {c, t}"
| "op_qubits (SingleQubitGateOp g q) = {q}"
| "op_qubits _ = {}"

lemma set_set_add: "set (set_add x xs) = insert x (set xs)"
  by (auto simp: set_add_def)

lemma set_logical_qubits: "set (logical_qubits ops acc) = set acc \<union> (\<Union>op \<in> set ops. op_qubits op)"
  by (induction ops acc rule: logical_qubits.induct) (auto simp: set_set_add)

lemma keys_initialize_layout: "map fst (initialize_layout n) = map LogicalQubit [0..n - 1]"
  by (simp add: initialize_layout_def comp_def)

lemma referenced_in_initial_layout:
  assumes "op \<in> set ir" "lq \<in> op_qubits op" "0 \<le> lq_id lq"
  shows "lq \<in> set (map fst (initialize_layout (num_qubits_of ir)))"
proof -
  let ?lqs = "logical_qubits ir []"
  from assms(1,2) have mem: "lq \<in> set ?lqs" by (auto simp: set_logical_qubits)
  then have ne: "?lqs \<noteq> []" by auto
  from mem have "lq_id lq \<le> Max (set (map lq_id ?lqs))" by simp
  with ne have "lq_id lq \<le> num_qubits_of ir - 1" by (simp add: num_qubits_of_def Let_def)
  with assms(3) have "lq_id lq \<in> set [0..num_qubits_of ir - 1]" by simp
  then show ?thesis by (cases lq) (auto simp: keys_initialize_layout)
qed

lemma optimize_loop_no_KeyError:
  "optimize_loop set_order topo ops st = Some r \<Longrightarrow>
   \<forall>op \<in> set ops. op_qubits op \<subseteq> set (map fst (current_layout st)) \<Longrightarrow>
   r \<noteq> Inl KeyError"
proof (induction ops arbitrary: st)
  case Nil
  then show ?case by auto
next
  case (Cons op ops)
  show ?case
  proof (cases "is_two_qubit op")
    case False
    with Cons.prems(1)
    have run: "optimize_loop set_order topo ops (st\<lparr>optimized_ops := optimized_ops st @ [op]\<rparr>) = Some r"
      by (simp add: optimize_loop_other)
    have "\<forall>op' \<in> set ops. op_qubits op' \<subseteq>
        set (map fst (current_layout (st\<lparr>optimized_ops := optimized_ops st @ [op]\<rparr>)))"
      using Cons.prems(2) by simp
    from Cons.IH[OF run this] show ?thesis .
  next
    case True
    then obtain g c t where op: "op = TryTwoQubitOp g c t" by (cases op) auto
    from Cons.prems(2) op
    have keys: "c \<in> set (map fst (current_layout st))" "t \<in> set (map fst (current_layout st))"
      by simp_all
    from Cons.prems(1)[unfolded op] show ?thesis
    proof (cases rule: optimize_loop_two_qubit)
      case (lookup_error e)
      with get_physical_qubits_ok[OF keys] show ?thesis by auto
    next
      case (loop_error pq1 pq2 e)
      from swap_loop_no_KeyError[OF loop_error(2)] keys loop_error(3) show ?thesis by simp
    next
      case (routed pq1 pq2 st' k)
      from swap_loop_effect[OF routed(2)]
      have "map fst (current_layout st') = map fst (current_layout st)"
        by (simp add: loop_effect_def)
      then have "map fst (current_layout (gate_emitted st' k (TryTwoQubitOp g c t))) = map fst (current_layout st)"
        by (simp add: gate_emitted_def)
      then have "\<forall>op' \<in> set ops. op_qubits op' \<subseteq>
          set (map fst (current_layout (gate_emitted st' k (TryTwoQubitOp g c t))))"
        using Cons.prems(2) by simp
      from Cons.IH[OF routed(3) this] show ?thesis .
    qed
  qed
qed

text \<open>
  Claim C10. For an input whose gates refer to logical qubits with non-negative ids only,
  no layout lookup of the pass fails: the pass never raises \<open>KeyError\<close>, whether it returns
  or runs forever. The keys of the initial layout are the ids from 0 to the largest id
  referred to, so they cover every qubit of every gate, single-qubit gates included, and
  applying a swap keeps the keys of the layout.
\<close>

theorem layout_lookups_succeed:
  assumes "\<forall>op \<in> set ir. \<forall>lq \<in> op_qubits op. 0 \<le> lq_id lq"
  shows "optimize set_order topo ir \<noteq> Some (Inl KeyError) \<and>
         map fst (initialize_layout (num_qubits_of ir)) = map LogicalQubit [0..num_qubits_of ir - 1] \<and>
         (\<forall>op \<in> set ir. op_qubits op \<subseteq> set (map fst (initialize_layout (num_qubits_of ir)))) \<and>
         (\<forall>l pq1 pq2. map fst (apply_swap l pq1 pq2) = map fst l)"
proof (intro conjI)
  let ?st = "\<lparr>current_layout = initialize_layout (num_qubits_of ir),
              optimized_ops = [CurrentLayoutOp (initialize_layout (num_qubits_of ir))], warnings = []\<rparr>"
  have cover: "\<forall>op \<in> set ir. op_qubits op \<subseteq> set (map fst (current_layout ?st))"
  proof (intro ballI subsetI)
    fix op lq assume "op \<in> set ir" "lq \<in> op_qubits op"
    with assms referenced_in_initial_layout[of op ir lq]
    show "lq \<in> set (map fst (current_layout ?st))" by simp
  qed
  show "optimize set_order topo ir \<noteq> Some (Inl KeyError)"
  proof
    assume "optimize set_order topo ir = Some (Inl KeyError)"
    then have "optimize_loop set_order topo ir ?st = Some (Inl KeyError)"
      by (auto simp: optimize_def Let_def split: option.splits sum.splits)
    from optimize_loop_no_KeyError[OF this cover] show False by simp
  qed
  show "map fst (initialize_layout (num_qubits_of ir)) = map LogicalQubit [0..num_qubits_of ir - 1]"
    by (rule keys_initialize_layout)
  show "\<forall>op \<in> set ir. op_qubits op \<subseteq> set (map fst (initialize_layout (num_qubits_of ir)))"
    using cover by simp
  show "\<forall>l pq1 pq2. map fst (apply_swap l pq1 pq2) = map fst l"
    by (simp add: apply_swap_keys)
qed

theorem layout_lookups_succeed_witness:
  "0 \<le> lq_id (LogicalQubit 2) \<and> 0 \<le> lq_id (LogicalQubit 0) \<and> 0 \<le> lq_id (LogicalQubit 1) \<and>
   optimize (\<lambda>xs. xs) LinearTopology
     [SingleQubitGateOp ''H'' (LogicalQubit 2), TryTwoQubitOp ''CNOT'' (LogicalQubit 0) (LogicalQubit 1)]
     \<noteq> Some (Inl KeyError) \<and>
   op_qubits (SingleQubitGateOp ''H'' (LogicalQubit 2)) \<subseteq>
     set (map fst (initialize_layout (num_qubits_of
       [SingleQubitGateOp ''H'' (LogicalQubit 2), TryTwoQubitOp ''CNOT'' (LogicalQubit 0) (LogicalQubit 1)])))"
proof -
  let ?ir = "[SingleQubitGateOp ''H'' (LogicalQubit 2), TryTwoQubitOp ''CNOT'' (LogicalQubit 0) (LogicalQubit 1)]"
  have h: "\<forall>op \<in> set ?ir. \<forall>lq \<in> op_qubits op. 0 \<le> lq_id lq" by simp
  note t = layout_lookups_succeed[OF h, of "\<lambda>xs. xs" LinearTopology]
  from t have a: "optimize (\<lambda>xs. xs) LinearTopology ?ir \<noteq> Some (Inl KeyError)" by (rule conjunct1)
  from t have "\<forall>op \<in> set ?ir. op_qubits op \<subseteq> set (map fst (initialize_layout (num_qubits_of ?ir)))"
    by blast
  then have b: "op_qubits (SingleQubitGateOp ''H'' (LogicalQubit 2)) \<subseteq>
      set (map fst (initialize_layout (num_qubits_of ?ir)))"
    by (rule bspec) simp
  have c: "0 \<le> lq_id (LogicalQubit 2) \<and> 0 \<le> lq_id (LogicalQubit 0) \<and> 0 \<le> lq_id (LogicalQubit 1)" by simp
  from a b c show ?thesis by (intro conjI) simp_all
qed

section \<open>Adjacency on output\<close>

text \<open>
  Reading a routed IR: \<open>last_mark\<close> is the most recent layout mark after a list of
  operations, and a two-qubit gate is \<open>on_adjacent\<close> qubits when its control and target,
  translated through that mark (\<open>CurrentLayoutOp.get_physical_qubit\<close>), are adjacent in
  the topology. \<open>adjacency_violations\<close> lists the two-qubit gates of an IR that are not.
\<close>

fun last_mark :: "layout option \<Rightarrow> operation list \<Rightarrow> layout option" where
  "last_mark m [] = m"
| "last_mark m (CurrentLayoutOp l # ops) = last_mark (Some l) ops"
| "last_mark m (_ # ops) = last_mark m ops"

definition on_adjacent :: "topology \<Rightarrow> layout option \<Rightarrow> LogicalQubit \<Rightarrow> LogicalQubit \<Rightarrow> bool" where
  "on_adjacent topo m c t =
     (case m of
        None \<Rightarrow> False
      | Some l \<Rightarrow>
          (case (map_of l c, map_of l t) of
             (Some p1, Some p2) \<Rightarrow> are_adjacent topo (str_pq p1) (str_pq p2)
           | _ \<Rightarrow> False))"

fun adjacency_violations :: "topology \<Rightarrow> layout option \<Rightarrow> operation list \<Rightarrow> operation list" where
  "adjacency_violations topo m [] = []"
| "adjacency_violations topo m (CurrentLayoutOp l # ops) = adjacency_violations topo (Some l) ops"
| "adjacency_violations topo m (TryTwoQubitOp g c t # ops) =
     (if on_adjacent topo m c t then adjacency_violations topo m ops
      else TryTwoQubitOp g c t # adjacency_violations topo m ops)"
| "adjacency_violations topo m (_ # ops) = adjacency_violations topo m ops"

lemma last_mark_append: "last_mark m (xs @ ys) = last_mark (last_mark m xs) ys"
  by (induction m xs rule: last_mark.induct) simp_all

lemma adjacency_violations_append:
  "adjacency_violations topo m (xs @ ys) =
     adjacency_violations topo m xs @ adjacency_violations topo (last_mark m xs) ys"
  by (induction topo m xs rule: adjacency_violations.induct) simp_all

lemma swaps_no_mark: "list_all is_swap sw \<Longrightarrow> last_mark m sw = m"
  by (induction m sw rule: last_mark.induct) simp_all

lemma swaps_no_violation: "list_all is_swap sw \<Longrightarrow> adjacency_violations topo m sw = []"
  by (induction topo m sw rule: adjacency_violations.induct) simp_all

lemma on_adjacent_lookup:
  "get_physical_qubits l c t = Inr (p1, p2) \<Longrightarrow>
   on_adjacent topo (Some l) c t = are_adjacent topo (str_pq p1) (str_pq p2)"
  by (auto simp: get_physical_qubits_def on_adjacent_def split: option.splits)

text \<open>
  One two-qubit gate: after its swap loop has returned, the mark in force is the current
  layout, and the gate is a violation exactly when the warning was added.
\<close>

lemma gate_emitted_adjacency:
  assumes eff: "loop_effect 0 st k st1"
    and ex: "loop_exit set_order topo remaining_ops (TryTwoQubitOp g c t) (warnings st) st1"
    and mark: "last_mark None (optimized_ops st) = Some (current_layout st)"
  shows "last_mark None (optimized_ops (gate_emitted st1 k (TryTwoQubitOp g c t)))
           = Some (current_layout (gate_emitted st1 k (TryTwoQubitOp g c t))) \<and>
         (\<exists>w. warnings (gate_emitted st1 k (TryTwoQubitOp g c t)) = warnings st @ w \<and>
              adjacency_violations topo None (optimized_ops (gate_emitted st1 k (TryTwoQubitOp g c t)))
                = adjacency_violations topo None (optimized_ops st) @ w)"
proof -
  let ?op = "TryTwoQubitOp g c t"
  let ?st2 = "gate_emitted st1 k ?op"
  from eff obtain sw where
    sw: "optimized_ops st1 = optimized_ops st @ sw" "list_all is_swap sw"
    and same: "k = 0 \<Longrightarrow> current_layout st1 = current_layout st"
    by (auto simp: loop_effect_def)
  let ?marks = "if k > 0 then [CurrentLayoutOp (current_layout st1)] else []"
  have ops2: "optimized_ops ?st2 = optimized_ops st @ sw @ ?marks @ [?op]"
    using sw(1) by (simp add: gate_emitted_def)
  have m1: "last_mark None (optimized_ops st @ sw) = Some (current_layout st)"
    using mark sw(2) by (simp add: last_mark_append swaps_no_mark)
  have m2: "last_mark None (optimized_ops st @ sw @ ?marks) = Some (current_layout st1)"
  proof (cases "k > 0")
    case True
    then show ?thesis by (simp add: last_mark_append)
  next
    case False
    with same m1 show ?thesis by simp
  qed
  have m3: "last_mark None (optimized_ops ?st2) = Some (current_layout ?st2)"
  proof -
    have "last_mark None (optimized_ops ?st2) = last_mark (Some (current_layout st1)) [?op]"
      unfolding ops2 using m2 by (metis append.assoc last_mark_append)
    then show ?thesis by (simp add: gate_emitted_def)
  qed
  have v1: "adjacency_violations topo None (optimized_ops st @ sw @ ?marks)
              = adjacency_violations topo None (optimized_ops st)"
  proof -
    have "adjacency_violations topo None (optimized_ops st @ sw @ ?marks)
            = adjacency_violations topo None (optimized_ops st @ sw)
              @ adjacency_violations topo (Some (current_layout st)) ?marks"
      using m1 by (metis append.assoc adjacency_violations_append)
    moreover have "adjacency_violations topo (Some (current_layout st)) ?marks = []" by simp
    moreover have "adjacency_violations topo None (optimized_ops st @ sw)
            = adjacency_violations topo None (optimized_ops st)"
      using sw(2) by (simp add: adjacency_violations_append swaps_no_violation)
    ultimately show ?thesis by simp
  qed
  have v2: "adjacency_violations topo None (optimized_ops ?st2)
              = adjacency_violations topo None (optimized_ops st)
                @ adjacency_violations topo (Some (current_layout st1)) [?op]"
  proof -
    have "optimized_ops ?st2 = (optimized_ops st @ sw @ ?marks) @ [?op]" using ops2 by simp
    then show ?thesis using m2 v1 by (simp only: adjacency_violations_append)
  qed
  from ex obtain p1 p2 where
    pq: "get_physical_qubits (current_layout st1) c t = Inr (p1, p2)"
    and cases: "(are_adjacent topo (str_pq p1) (str_pq p2) \<and> warnings st1 = warnings st) \<or>
                (\<not> are_adjacent topo (str_pq p1) (str_pq p2) \<and> warnings st1 = warnings st @ [?op])"
    by (auto simp: loop_exit_def split: sum.splits)
  have w2: "warnings ?st2 = warnings st1" by (simp add: gate_emitted_def)
  from cases have "\<exists>w. warnings ?st2 = warnings st @ w \<and>
      adjacency_violations topo (Some (current_layout st1)) [?op] = w"
  proof
    assume "are_adjacent topo (str_pq p1) (str_pq p2) \<and> warnings st1 = warnings st"
    then show ?thesis using w2 by (simp add: on_adjacent_lookup[OF pq])
  next
    assume "\<not> are_adjacent topo (str_pq p1) (str_pq p2) \<and> warnings st1 = warnings st @ [?op]"
    then show ?thesis using w2 by (simp add: on_adjacent_lookup[OF pq])
  qed
  with v2 m3 show ?thesis by auto
qed

lemma optimize_loop_adjacency:
  "optimize_loop set_order topo ops st = Some (Inr st') \<Longrightarrow> list_all is_gate ops \<Longrightarrow>
   last_mark None (optimized_ops st) = Some (current_layout st) \<Longrightarrow>
   \<exists>w. warnings st' = warnings st @ w \<and>
       adjacency_violations topo None (optimized_ops st') = adjacency_violations topo None (optimized_ops st) @ w"
proof (induction ops arbitrary: st)
  case Nil
  then show ?case by simp
next
  case (Cons op ops)
  from Cons.prems(2) have gates: "list_all is_gate ops" and g: "is_gate op" by simp_all
  show ?case
  proof (cases "is_two_qubit op")
    case False
    with g obtain n q where op: "op = SingleQubitGateOp n q" by (cases op) auto
    let ?st = "st\<lparr>optimized_ops := optimized_ops st @ [op]\<rparr>"
    from Cons.prems(1) op have run: "optimize_loop set_order topo ops ?st = Some (Inr st')" by simp
    have m: "last_mark None (optimized_ops ?st) = Some (current_layout ?st)"
      using Cons.prems(3) op by (simp add: last_mark_append)
    have v: "adjacency_violations topo None (optimized_ops ?st) = adjacency_violations topo None (optimized_ops st)"
      using op by (simp add: adjacency_violations_append)
    from Cons.IH[OF run gates m] v show ?thesis by simp
  next
    case True
    then obtain n c t where op: "op = TryTwoQubitOp n c t" by (cases op) auto
    from Cons.prems(1)[unfolded op] show ?thesis
    proof (cases rule: optimize_loop_two_qubit)
      case (routed pq1 pq2 st1 k)
      have pq: "get_physical_qubits (current_layout st) (control (TryTwoQubitOp n c t)) (target (TryTwoQubitOp n c t))
                  = Inr (pq1, pq2)"
        using routed(1) by simp
      note e = gate_emitted_adjacency[OF swap_loop_effect[OF routed(2)] swap_loop_exit[OF routed(2) pq] Cons.prems(3)]
      from e obtain w1 where
        w1: "warnings (gate_emitted st1 k (TryTwoQubitOp n c t)) = warnings st @ w1"
            "adjacency_violations topo None (optimized_ops (gate_emitted st1 k (TryTwoQubitOp n c t)))
               = adjacency_violations topo None (optimized_ops st) @ w1"
        by blast
      from Cons.IH[OF routed(3) gates conjunct1[OF e]] obtain w2 where
        w2: "warnings st' = warnings (gate_emitted st1 k (TryTwoQubitOp n c t)) @ w2"
            "adjacency_violations topo None (optimized_ops st')
               = adjacency_violations topo None (optimized_ops (gate_emitted st1 k (TryTwoQubitOp n c t))) @ w2"
        by blast
      from w1 w2 have "warnings st' = warnings st @ (w1 @ w2) \<and>
          adjacency_violations topo None (optimized_ops st') = adjacency_violations topo None (optimized_ops st) @ (w1 @ w2)"
        by simp
      then show ?thesis by blast
    qed simp_all
  qed
qed

text \<open>
  Claim C1 as the specification states it: every two-qubit gate of every routed IR is on
  adjacent physical qubits under the most recent layout mark. On the three-qubit linear
  device the gate on logical qubits 3 and 4 is emitted on the physical qubits 3 and 4,
  which are not adjacent: the selection has no candidate and the loop gives up.
\<close>

theorem adjacency_on_output_counterexample:
  "optimize (\<lambda>xs. xs) LinearTopology [TryTwoQubitOp ''CNOT'' (LogicalQubit 3) (LogicalQubit 4)] =
     Some (Inr ([CurrentLayoutOp [(LogicalQubit 0, PhysicalQubit 0), (LogicalQubit 1, PhysicalQubit 1),
                                  (LogicalQubit 2, PhysicalQubit 2), (LogicalQubit 3, PhysicalQubit 3),
                                  (LogicalQubit 4, PhysicalQubit 4)],
                 TryTwoQubitOp ''CNOT'' (LogicalQubit 3) (LogicalQubit 4)],
                [TryTwoQubitOp ''CNOT'' (LogicalQubit 3) (LogicalQubit 4)])) \<and>
   \<not> on_adjacent LinearTopology
       (Some [(LogicalQubit 0, PhysicalQubit 0), (LogicalQubit 1, PhysicalQubit 1),
              (LogicalQubit 2, PhysicalQubit 2), (LogicalQubit 3, PhysicalQubit 3),
              (LogicalQubit 4, PhysicalQubit 4)])
       (LogicalQubit 3) (LogicalQubit 4)"
  by code_simp

text \<open>
  Claim C1, amended. When the pass returns an IR for an input made of gates, the two-qubit
  gates of that IR that are not on adjacent physical qubits under the most recent layout
  mark are exactly the gates for which the pass gave up with the warning that no swap
  candidate was found, in the same order. In particular, when no warning was printed,
  every two-qubit gate of the routed IR is on adjacent physical qubits.
\<close>

theorem adjacency_on_output:
  assumes "optimize set_order topo ir = Some (Inr (out, w))" and "list_all is_gate ir"
  shows "adjacency_violations topo None out = w"
proof -
  let ?st = "\<lparr>current_layout = initialize_layout (num_qubits_of ir),
              optimized_ops = [CurrentLayoutOp (initialize_layout (num_qubits_of ir))], warnings = []\<rparr>"
  from assms(1) obtain st where
    st: "optimize_loop set_order topo ir ?st = Some (Inr st)" "out = optimized_ops st" "w = warnings st"
    by (auto elim: optimize_Inr)
  have "last_mark None (optimized_ops ?st) = Some (current_layout ?st)" by simp
  from optimize_loop_adjacency[OF st(1) assms(2) this] st(2,3) show ?thesis by simp
qed

theorem adjacency_on_output_witness:
  "optimize (\<lambda>xs. xs) LinearTopology
     [TryTwoQubitOp ''CNOT'' (LogicalQubit 0) (LogicalQubit 2), TryTwoQubitOp ''CNOT'' (LogicalQubit 3) (LogicalQubit 4)] =
     Some (Inr ([CurrentLayoutOp [(LogicalQubit 0, PhysicalQubit 0), (LogicalQubit 1, PhysicalQubit 1),
                                  (LogicalQubit 2, PhysicalQubit 2), (LogicalQubit 3, PhysicalQubit 3),
                                  (LogicalQubit 4, PhysicalQubit 4)],
                 InsertSwapOp (PhysicalQubit 0) (PhysicalQubit 1) 0,
                 CurrentLayoutOp [(LogicalQubit 0, PhysicalQubit 1), (LogicalQubit 1, PhysicalQubit 0),
                                  (LogicalQubit 2, PhysicalQubit 2), (LogicalQubit 3, PhysicalQubit 3),
                                  (LogicalQubit 4, PhysicalQubit 4)],
                 TryTwoQubitOp ''CNOT'' (LogicalQubit 0) (LogicalQubit 2),
                 TryTwoQubitOp ''CNOT'' (LogicalQubit 3) (LogicalQubit 4)],
                [TryTwoQubitOp ''CNOT'' (LogicalQubit 3) (LogicalQubit 4)])) \<and>
   list_all is_gate
     [TryTwoQubitOp ''CNOT'' (LogicalQubit 0) (LogicalQubit 2), TryTwoQubitOp ''CNOT'' (LogicalQubit 3) (LogicalQubit 4)] \<and>
   adjacency_violations LinearTopology None
     [CurrentLayoutOp [(LogicalQubit 0, PhysicalQubit 0), (LogicalQubit 1, PhysicalQubit 1),
                       (LogicalQubit 2, PhysicalQubit 2), (LogicalQubit 3, PhysicalQubit 3),
                       (LogicalQubit 4, PhysicalQubit 4)],
      InsertSwapOp (PhysicalQubit 0) (PhysicalQubit 1) 0,
      CurrentLayoutOp [(LogicalQubit 0, PhysicalQubit 1), (LogicalQubit 1, PhysicalQubit 0),
                       (LogicalQubit 2, PhysicalQubit 2), (LogicalQubit 3, PhysicalQubit 3),
                       (LogicalQubit 4, PhysicalQubit 4)],
      TryTwoQubitOp ''CNOT'' (LogicalQubit 0) (LogicalQubit 2),
      TryTwoQubitOp ''CNOT'' (LogicalQubit 3) (LogicalQubit 4)]
     = [TryTwoQubitOp ''CNOT'' (LogicalQubit 3) (LogicalQubit 4)]"
proof -
  have run: "optimize (\<lambda>xs. xs) LinearTopology
     [TryTwoQubitOp ''CNOT'' (LogicalQubit 0) (LogicalQubit 2), TryTwoQubitOp ''CNOT'' (LogicalQubit 3) (LogicalQubit 4)] =
     Some (Inr ([CurrentLayoutOp [(LogicalQubit 0, PhysicalQubit 0), (LogicalQubit 1, PhysicalQubit 1),
                                  (LogicalQubit 2, PhysicalQubit 2), (LogicalQubit 3, PhysicalQubit 3),
                                  (LogicalQubit 4, PhysicalQubit 4)],
                 InsertSwapOp (PhysicalQubit 0) (PhysicalQubit 1) 0,
                 CurrentLayoutOp [(LogicalQubit 0, PhysicalQubit 1), (LogicalQubit 1, PhysicalQubit 0),
                                  (LogicalQubit 2, PhysicalQubit 2), (LogicalQubit 3, PhysicalQubit 3),
                                  (LogicalQubit 4, PhysicalQubit 4)],
                 TryTwoQubitOp ''CNOT'' (LogicalQubit 0) (LogicalQubit 2),
                 TryTwoQubitOp ''CNOT'' (LogicalQubit 3) (LogicalQubit 4)],
                [TryTwoQubitOp ''CNOT'' (LogicalQubit 3) (LogicalQubit 4)]))"
    by code_simp
  have gates: "list_all is_gate
     [TryTwoQubitOp ''CNOT'' (LogicalQubit 0) (LogicalQubit 2), TryTwoQubitOp ''CNOT'' (LogicalQubit 3) (LogicalQubit 4)]"
    by simp
  from run gates adjacency_on_output[OF run gates] show ?thesis by (intro conjI)
qed

section \<open>The selection score\<close>

text \<open>The directed edges of the coupling graph, and what the search returns along them.\<close>

definition edges :: "topology \<Rightarrow> (string \<times> string) set" where
  "edges topo = {(a, b). are_adjacent topo a b}"

lemma get_neighbors_adjacent: "n \<in> set (get_neighbors topo q) \<longleftrightarrow> are_adjacent topo q n"
  by (simp add: get_neighbors_def are_adjacent_def split: option.splits)


lemma scan_neighbors_found:
  "scan_neighbors dst path ns visited queue = Inl found \<Longrightarrow> dst \<in> set ns"
  by (induction ns arbitrary: visited queue) (auto split: if_splits)

lemma scan_neighbors_queue:
  "scan_neighbors dst path ns visited queue = Inr (visited', queue') \<Longrightarrow>
   fst ` set queue' \<subseteq> fst ` set queue \<union> set ns"
proof (induction ns arbitrary: visited queue)
  case Nil
  then show ?case by simp
next
  case (Cons n ns)
  show ?case
  proof (cases "n = dst")
    case True
    with Cons.prems show ?thesis by simp
  next
    case neq: False
    show ?thesis
    proof (cases "n \<in> visited")
      case True
      with neq Cons.prems have "scan_neighbors dst path ns visited queue = Inr (visited', queue')" by simp
      from Cons.IH[OF this] show ?thesis by auto
    next
      case False
      with neq Cons.prems
      have "scan_neighbors dst path ns (insert n visited) (queue @ [(n, path @ [n])]) = Inr (visited', queue')"
        by simp
      from Cons.IH[OF this] show ?thesis by auto
    qed
  qed
qed

text \<open>A path found by the search leads to the destination along edges of the graph.\<close>

lemma bfs_sound:
  "bfs topo dst visited queue \<noteq> [] \<Longrightarrow> \<exists>n \<in> fst ` set queue. (n, dst) \<in> (edges topo)\<^sup>*"
proof (induction topo dst visited queue rule: bfs.induct)
  case (1 topo dst visited)
  then show ?case by simp
next
  case (2 topo dst visited current path queue)
  show ?case
  proof (cases "scan_neighbors dst path (get_neighbors topo current) visited queue")
    case (Inl found)
    from scan_neighbors_found[OF Inl] have "(current, dst) \<in> edges topo"
      by (simp add: edges_def get_neighbors_adjacent)
    then show ?thesis by auto
  next
    case (Inr vq)
    obtain visited' queue' where vq: "vq = (visited', queue')" by (cases vq)
    from "2.prems" Inr vq have "bfs topo dst visited' queue' \<noteq> []" by simp
    from "2.IH"[OF Inr vq[symmetric] this] obtain n where
      n: "n \<in> fst ` set queue'" "(n, dst) \<in> (edges topo)\<^sup>*"
      by blast
    from scan_neighbors_queue[OF Inr[unfolded vq]] n(1)
    have "n \<in> fst ` set queue \<or> n \<in> set (get_neighbors topo current)" by auto
    then show ?thesis
    proof
      assume "n \<in> fst ` set queue"
      with n(2) show ?thesis by auto
    next
      assume "n \<in> set (get_neighbors topo current)"
      then have "(current, n) \<in> edges topo" by (simp add: edges_def get_neighbors_adjacent)
      from this n(2) have "(current, dst) \<in> (edges topo)\<^sup>*" by (rule converse_rtrancl_into_rtrancl)
      then show ?thesis by auto
    qed
  qed
qed















section \<open>Queries on unknown identifiers and fidelity of non-edges\<close>

lemma heavy_hex_fidelities_edges:
  "list_all (\<lambda>(k, f). are_adjacent HeavyHexTopology (fst k) (snd k)) heavy_hex_fidelities"
  by code_simp

lemma heavy_hex_fidelity_non_edge:
  assumes "\<not> are_adjacent HeavyHexTopology a b"
  shows "get_fidelity HeavyHexTopology a b = 0"
proof (cases "map_of heavy_hex_fidelities (a, b)")
  case None
  then show ?thesis by (simp add: HeavyHexTopology_def)
next
  case (Some f)
  then have "((a, b), f) \<in> set heavy_hex_fidelities" by (rule map_of_SomeD)
  with heavy_hex_fidelities_edges have "are_adjacent HeavyHexTopology a b"
    by (auto simp: list_all_iff)
  with assms show ?thesis by simp
qed

lemma unknown_start:
  assumes "map_of (coupling_graph topo) a = None"
  shows "\<not> are_adjacent topo a b" "get_neighbors topo a = []" "a \<noteq> b \<Longrightarrow> shortest_path topo a b = []"
  using assms by (simp_all add: are_adjacent_def get_neighbors_def shortest_path_def)

lemma unknown_end:
  assumes "b \<notin> graph_nodes topo"
  shows "\<not> are_adjacent topo a b" "a \<noteq> b \<Longrightarrow> shortest_path topo a b = []"
proof -
  have no_edge: "\<And>x. (x, b) \<notin> edges topo"
    using assms get_neighbors_nodes[of topo] by (auto simp: edges_def get_neighbors_adjacent[symmetric])
  then show "\<not> are_adjacent topo a b" by (simp add: edges_def)
  assume ne: "a \<noteq> b"
  have "(a, b) \<notin> (edges topo)\<^sup>*"
  proof
    assume "(a, b) \<in> (edges topo)\<^sup>*"
    then show False using ne no_edge by (cases rule: rtranclE) simp_all
  qed
  then have "bfs topo b {a} [(a, [a])] = []"
    using bfs_sound[of topo b "{a}" "[(a, [a])]"] by auto
  with ne show "shortest_path topo a b = []" by (simp add: shortest_path_def)
qed

text \<open>
  In the three topologies of the repository a label outside \<open>physical_qubits\<close> is not a key
  of the coupling graph and is nobody's neighbour.
\<close>

lemma unknown_in_scope:
  assumes "topo = LinearTopology \<or> topo = Grid2x2Topology \<or> topo = HeavyHexTopology"
    and "q \<notin> set (physical_qubits topo)"
  shows "map_of (coupling_graph topo) q = None \<and> q \<notin> graph_nodes topo"
proof -
  have k1: "set (map fst (coupling_graph LinearTopology)) = set (physical_qubits LinearTopology)"
    by code_simp
  have k2: "set (map fst (coupling_graph Grid2x2Topology)) = set (physical_qubits Grid2x2Topology)"
    by code_simp
  have k3: "set (map fst (coupling_graph HeavyHexTopology)) = set (physical_qubits HeavyHexTopology)"
    by code_simp
  have n1: "list_all (\<lambda>(k, ns). list_all (\<lambda>n. n \<in> set (physical_qubits LinearTopology)) ns)
              (coupling_graph LinearTopology)"
    by code_simp
  have n2: "list_all (\<lambda>(k, ns). list_all (\<lambda>n. n \<in> set (physical_qubits Grid2x2Topology)) ns)
              (coupling_graph Grid2x2Topology)"
    by code_simp
  have n3: "list_all (\<lambda>(k, ns). list_all (\<lambda>n. n \<in> set (physical_qubits HeavyHexTopology)) ns)
              (coupling_graph HeavyHexTopology)"
    by code_simp
  have keys: "set (map fst (coupling_graph topo)) = set (physical_qubits topo)"
    using assms(1) k1 k2 k3 by blast
  have nodes: "list_all (\<lambda>(k, ns). list_all (\<lambda>n. n \<in> set (physical_qubits topo)) ns) (coupling_graph topo)"
    using assms(1) n1 n2 n3 by blast
  from keys assms(2) have "map_of (coupling_graph topo) q = None"
    by (metis list.set_map map_of_eq_None_iff)
  moreover from nodes assms(2) have "q \<notin> graph_nodes topo"
    by (auto simp: graph_nodes_def list_all_iff)
  ultimately show ?thesis by simp
qed

text \<open>
  Claim C7 as the specification states it: the fidelity of a pair that is not an edge is 0
  in every topology. The linear topology answers 1 for every pair.
\<close>

theorem fidelity_non_edge_counterexample:
  "\<not> are_adjacent LinearTopology ''P0'' ''P2'' \<and> get_fidelity LinearTopology ''P0'' ''P2'' = 1 \<and>
   \<not> are_adjacent LinearTopology ''P0'' ''P7'' \<and> get_fidelity LinearTopology ''P0'' ''P7'' = 1"
  by code_simp

text \<open>
  Claim C7, amended. In the heavy-hex topology the fidelity of every pair that is not an
  edge, unknown labels included, is 0; the linear and the grid topology answer 1 for every
  pair. In every topology a label that is not a key of the coupling graph is adjacent to
  nothing, has no neighbours and starts no path to another label, and a label that is
  nobody's neighbour is adjacent from nothing and ends no path from another label; in the
  three topologies of the repository every label outside \<open>physical_qubits\<close> is both. The
  queries are total functions: none of them raises.
\<close>

theorem unknown_identifiers_no_connection:
  "(\<not> are_adjacent HeavyHexTopology a b \<longrightarrow> get_fidelity HeavyHexTopology a b = 0) \<and>
   get_fidelity LinearTopology a b = 1 \<and> get_fidelity Grid2x2Topology a b = 1 \<and>
   (map_of (coupling_graph topo) a = None \<longrightarrow>
      \<not> are_adjacent topo a b \<and> get_neighbors topo a = [] \<and> (a \<noteq> b \<longrightarrow> shortest_path topo a b = [])) \<and>
   (b \<notin> graph_nodes topo \<longrightarrow>
      \<not> are_adjacent topo a b \<and> (a \<noteq> b \<longrightarrow> shortest_path topo a b = [])) \<and>
   ((topo = LinearTopology \<or> topo = Grid2x2Topology \<or> topo = HeavyHexTopology) \<and>
    q \<notin> set (physical_qubits topo) \<longrightarrow>
      map_of (coupling_graph topo) q = None \<and> q \<notin> graph_nodes topo)"
proof (intro conjI impI)
  show "get_fidelity LinearTopology a b = 1" by (simp add: LinearTopology_def)
  show "get_fidelity Grid2x2Topology a b = 1" by (simp add: Grid2x2Topology_def)
qed (simp_all add: heavy_hex_fidelity_non_edge unknown_start unknown_end unknown_in_scope)

theorem unknown_identifiers_no_connection_witness:
  "\<not> are_adjacent HeavyHexTopology ''P20'' ''P21'' \<and>
   map_of (coupling_graph HeavyHexTopology) ''P20'' = None \<and>
   ''P21'' \<notin> graph_nodes HeavyHexTopology \<and> ''P20'' \<noteq> ''P21'' \<and>
   ''P20'' \<notin> set (physical_qubits HeavyHexTopology) \<and>
   get_fidelity HeavyHexTopology ''P20'' ''P21'' = 0 \<and>
   get_neighbors HeavyHexTopology ''P20'' = [] \<and>
   shortest_path HeavyHexTopology ''P20'' ''P21'' = []"
proof -
  have h1: "\<not> are_adjacent HeavyHexTopology ''P20'' ''P21''" by code_simp
  have h2: "map_of (coupling_graph HeavyHexTopology) ''P20'' = None" by code_simp
  have h3: "''P20'' \<notin> set (physical_qubits HeavyHexTopology)" by code_simp
  have h4: "''P20'' \<noteq> ''P21''" by simp
  note t = unknown_identifiers_no_connection[of "''P20''" "''P21''" HeavyHexTopology "''P20''"]
  from t h3 have h5: "''P20'' \<notin> graph_nodes HeavyHexTopology" by blast
  have h3': "''P21'' \<notin> set (physical_qubits HeavyHexTopology)" by code_simp
  from unknown_identifiers_no_connection[of "''P20''" "''P21''" HeavyHexTopology "''P21''"] h3'
  have h6: "''P21'' \<notin> graph_nodes HeavyHexTopology" by blast
  from t h1 have c1: "get_fidelity HeavyHexTopology ''P20'' ''P21'' = 0" by blast
  from t h2 have c2: "get_neighbors HeavyHexTopology ''P20'' = []" by blast
  from t h2 h4 have c3: "shortest_path HeavyHexTopology ''P20'' ''P21'' = []" by blast
  from h1 h2 h6 h4 h3 c1 c2 c3 show ?thesis by (intro conjI)
qed

section \<open>Candidate swaps on a device with more than ten qubits\<close>

text \<open>
  Claim C4 at a failing input. In the heavy-hex topology, under the identity layout, the
  front layer with the one gate on logical qubits 11 and 13 has the physical qubits 11 and
  13, whose neighbours are 9 and 12, and 12: the candidate set of the specification is
  \<open>{(9, 11), (11, 12), (12, 13)}\<close>. The code reads the neighbour \<open>P12\<close> as qubit 1, from
  the second character of the label, and returns the pairs \<open>(1, 11)\<close> and \<open>(1, 13)\<close>, which
  are not edges, instead of \<open>(11, 12)\<close> and \<open>(12, 13)\<close>.
\<close>

theorem candidate_swaps_two_digit_labels:
  "get_neighbors HeavyHexTopology (str_pq (PhysicalQubit 11)) = [''P9'', ''P12''] \<and>
   get_neighbors HeavyHexTopology (str_pq (PhysicalQubit 13)) = [''P12''] \<and>
   get_candidate_swaps (\<lambda>xs. xs) HeavyHexTopology (initialize_layout 14)
       [TryTwoQubitOp ''CNOT'' (LogicalQubit 11) (LogicalQubit 13)]
     = Inr [(PhysicalQubit 9, PhysicalQubit 11), (PhysicalQubit 1, PhysicalQubit 11),
            (PhysicalQubit 1, PhysicalQubit 13)] \<and>
   are_adjacent HeavyHexTopology ''P1'' ''P11'' = False \<and>
   are_adjacent HeavyHexTopology ''P1'' ''P13'' = False"
  by code_simp

section \<open>The swap loop has no bound\<close>

text \<open>
  A run of the pass on the heavy-hex topology: one gate on the logical qubits 11 and 13.
  The loop first swaps the physical qubits 9 and 11 and then swaps 8 and 9 for ever: the
  layout alternates between \<open>layout_a\<close> and \<open>layout_b\<close> and the gate is never on adjacent
  qubits.
\<close>

definition gate_11_13 :: operation where
  "gate_11_13 = TryTwoQubitOp ''CNOT'' (LogicalQubit 11) (LogicalQubit 13)"

definition layout_a :: layout where
  "layout_a = apply_swap (initialize_layout 14) (PhysicalQubit 9) (PhysicalQubit 11)"

definition layout_b :: layout where
  "layout_b = apply_swap layout_a (PhysicalQubit 8) (PhysicalQubit 9)"

definition in_cycle :: "PhysicalQubit \<Rightarrow> PhysicalQubit \<Rightarrow> operation list \<Rightarrow> nat \<Rightarrow> pass_state \<Rightarrow> bool" where
  "in_cycle pq1 pq2 fl n st =
     (fl = [gate_11_13] \<and> pq2 = PhysicalQubit 13 \<and>
      (current_layout st = initialize_layout 14 \<and> pq1 = PhysicalQubit 11 \<or>
       current_layout st = layout_a \<and> pq1 = PhysicalQubit 9 \<or>
       current_layout st = layout_b \<and> pq1 = PhysicalQubit 8))"

lemma cycle_selection:
  "select_best_swap (\<lambda>xs. xs) HeavyHexTopology (initialize_layout 14) [gate_11_13]
     = Inr (Some (PhysicalQubit 9, PhysicalQubit 11, 1 / 20))"
  "select_best_swap (\<lambda>xs. xs) HeavyHexTopology layout_a [gate_11_13]
     = Inr (Some (PhysicalQubit 8, PhysicalQubit 9, 1 / 100))"
  "select_best_swap (\<lambda>xs. xs) HeavyHexTopology layout_b [gate_11_13]
     = Inr (Some (PhysicalQubit 8, PhysicalQubit 9, 1 / 100))"
  by code_simp+

lemma cycle_layouts:
  "apply_swap layout_b (PhysicalQubit 8) (PhysicalQubit 9) = layout_a"
  "get_physical_qubits layout_a (control gate_11_13) (target gate_11_13) = Inr (PhysicalQubit 9, PhysicalQubit 13)"
  "get_physical_qubits layout_b (control gate_11_13) (target gate_11_13) = Inr (PhysicalQubit 8, PhysicalQubit 13)"
  "get_physical_qubits (initialize_layout 14) (LogicalQubit 11) (LogicalQubit 13)
     = Inr (PhysicalQubit 11, PhysicalQubit 13)"
  "build_front_layer [gate_11_13] = [gate_11_13]"
  by code_simp+

lemma cycle_not_adjacent:
  "\<not> are_adjacent HeavyHexTopology (str_pq (PhysicalQubit 11)) (str_pq (PhysicalQubit 13))"
  "\<not> are_adjacent HeavyHexTopology (str_pq (PhysicalQubit 9)) (str_pq (PhysicalQubit 13))"
  "\<not> are_adjacent HeavyHexTopology (str_pq (PhysicalQubit 8)) (str_pq (PhysicalQubit 13))"
  by code_simp+

lemma swap_loop_cycle:
  assumes "in_cycle pq1 pq2 fl n st"
  shows "swap_loop (\<lambda>xs. xs) HeavyHexTopology [gate_11_13] gate_11_13 pq1 pq2 fl n st = None"
proof (rule ccontr)
  assume "swap_loop (\<lambda>xs. xs) HeavyHexTopology [gate_11_13] gate_11_13 pq1 pq2 fl n st \<noteq> None"
  then obtain y where run: "swap_loop (\<lambda>xs. xs) HeavyHexTopology [gate_11_13] gate_11_13 pq1 pq2 fl n st = Some y"
    by blast
  show False
  proof (rule swap_loop_rule[OF run, where I = in_cycle and Q = "\<lambda>y. False"], goal_cases)
    case 1
    show ?case by (rule assms)
  next
    case (2 pq1 pq2 fl n st q1 q2 c p1 p2)
    from 2(1) have fl: "fl = [gate_11_13]" by (simp add: in_cycle_def)
    from 2(1) consider
        "current_layout st = initialize_layout 14"
      | "current_layout st = layout_a"
      | "current_layout st = layout_b"
      by (auto simp: in_cycle_def)
    then show ?case
    proof cases
      case 1
      with 2(3) fl have "q1 = PhysicalQubit 9" "q2 = PhysicalQubit 11" by (simp_all add: cycle_selection)
      with 1 have "current_layout (after_swap st q1 q2 c) = layout_a"
        by (simp add: after_swap_def layout_a_def)
      with 2(4) show ?thesis by (simp add: in_cycle_def cycle_layouts)
    next
      case 2
      with \<open>select_best_swap _ _ _ _ = _\<close> fl have "q1 = PhysicalQubit 8" "q2 = PhysicalQubit 9"
        by (simp_all add: cycle_selection)
      with 2 have "current_layout (after_swap st q1 q2 c) = layout_b"
        by (simp add: after_swap_def layout_b_def)
      with \<open>get_physical_qubits _ _ _ = _\<close> show ?thesis by (simp add: in_cycle_def cycle_layouts)
    next
      case 3
      with \<open>select_best_swap _ _ _ _ = _\<close> fl have "q1 = PhysicalQubit 8" "q2 = PhysicalQubit 9"
        by (simp_all add: cycle_selection)
      with 3 have "current_layout (after_swap st q1 q2 c) = layout_a"
        by (simp add: after_swap_def cycle_layouts)
      with \<open>get_physical_qubits _ _ _ = _\<close> show ?thesis by (simp add: in_cycle_def cycle_layouts)
    qed
  next
    case (3 pq1 pq2 fl n st)
    then show ?case using cycle_not_adjacent by (auto simp: in_cycle_def)
  next
    case (4 pq1 pq2 fl n st)
    then show ?case by (auto simp: in_cycle_def cycle_selection)
  next
    case (5 pq1 pq2 fl n st e)
    then show ?case by (auto simp: in_cycle_def cycle_selection)
  next
    case (6 pq1 pq2 fl n st q1 q2 c e)
    from 6(1) have fl: "fl = [gate_11_13]" by (simp add: in_cycle_def)
    from 6(1) consider
        "current_layout st = initialize_layout 14"
      | "current_layout st = layout_a"
      | "current_layout st = layout_b"
      by (auto simp: in_cycle_def)
    then show ?case
    proof cases
      case 1
      with 6(3) fl have "q1 = PhysicalQubit 9" "q2 = PhysicalQubit 11" by (simp_all add: cycle_selection)
      with 1 have "current_layout (after_swap st q1 q2 c) = layout_a"
        by (simp add: after_swap_def layout_a_def)
      with 6(4) show ?thesis by (simp add: cycle_layouts)
    next
      case 2
      with 6(3) fl have "q1 = PhysicalQubit 8" "q2 = PhysicalQubit 9" by (simp_all add: cycle_selection)
      with 2 have "current_layout (after_swap st q1 q2 c) = layout_b"
        by (simp add: after_swap_def layout_b_def)
      with 6(4) show ?thesis by (simp add: cycle_layouts)
    next
      case 3
      with 6(3) fl have "q1 = PhysicalQubit 8" "q2 = PhysicalQubit 9" by (simp_all add: cycle_selection)
      with 3 have "current_layout (after_swap st q1 q2 c) = layout_a"
        by (simp add: after_swap_def cycle_layouts)
      with 6(4) show ?thesis by (simp add: cycle_layouts)
    qed
  qed
qed

text \<open>
  Claim C3 as the specification states it: the swap loop for one gate inserts at most
  \<open>diameter * |F|\<close> swaps and then gives up, so that routing continues. On the heavy-hex
  topology (diameter 7) the loop for the gate on the logical qubits 11 and 13 (a front layer
  of one gate) never stops, and the pass returns nothing.
\<close>

theorem swap_bound_counterexample:
  "optimize (\<lambda>xs. xs) HeavyHexTopology [TryTwoQubitOp ''CNOT'' (LogicalQubit 11) (LogicalQubit 13)] = None"
proof -
  have "in_cycle (PhysicalQubit 11) (PhysicalQubit 13) [gate_11_13] 0
          \<lparr>current_layout = initialize_layout 14,
           optimized_ops = [CurrentLayoutOp (initialize_layout 14)], warnings = []\<rparr>"
    by (simp add: in_cycle_def)
  from swap_loop_cycle[OF this]
  have loop: "swap_loop (\<lambda>xs. xs) HeavyHexTopology [gate_11_13] gate_11_13 (PhysicalQubit 11) (PhysicalQubit 13)
          [gate_11_13] 0
          \<lparr>current_layout = initialize_layout 14,
           optimized_ops = [CurrentLayoutOp (initialize_layout 14)], warnings = []\<rparr> = None" .
  have n: "num_qubits_of [gate_11_13] = 14" by code_simp
  have "optimize (\<lambda>xs. xs) HeavyHexTopology [gate_11_13] = None"
    unfolding optimize_def n Let_def
    using loop cycle_layouts(4,5) by (simp add: gate_11_13_def)
  then show ?thesis by (simp add: gate_11_13_def)
qed

text \<open>
  Claim C3, amended. The swap loop has no ceiling and may run for ever. When it stops
  without an exception, having started with the gate's physical qubits and front layer, it
  has appended \<open>n' - n\<close> swaps and nothing else to the output and kept the keys of the
  layout, and it has stopped in one of two ways: the gate's physical qubits are adjacent
  under the final layout and no warning was added, or they are not, the selection found no
  candidate under the final layout and the warning for the gate was added (the gate is then
  emitted un-routed and routing continues).
\<close>

theorem swap_loop_stops_adjacent_or_no_candidate:
  assumes "swap_loop set_order topo remaining_ops op pq1 pq2 (build_front_layer remaining_ops) n st
             = Some (Inr (st', n'))"
    and "get_physical_qubits (current_layout st) (control op) (target op) = Inr (pq1, pq2)"
  shows "loop_exit set_order topo remaining_ops op (warnings st) st' \<and> loop_effect n st n' st'"
  using swap_loop_exit[OF assms] swap_loop_effect[OF assms(1)] by simp

theorem swap_loop_stops_adjacent_or_no_candidate_witness:
  "swap_loop (\<lambda>xs. xs) LinearTopology
      [TryTwoQubitOp ''CNOT'' (LogicalQubit 0) (LogicalQubit 2)]
      (TryTwoQubitOp ''CNOT'' (LogicalQubit 0) (LogicalQubit 2)) (PhysicalQubit 0) (PhysicalQubit 2)
      (build_front_layer [TryTwoQubitOp ''CNOT'' (LogicalQubit 0) (LogicalQubit 2)]) 0
      \<lparr>current_layout = initialize_layout 3, optimized_ops = [], warnings = []\<rparr>
     = Some (Inr (\<lparr>current_layout = [(LogicalQubit 0, PhysicalQubit 1), (LogicalQubit 1, PhysicalQubit 0),
                                         (LogicalQubit 2, PhysicalQubit 2)],
                      optimized_ops = [InsertSwapOp (PhysicalQubit 0) (PhysicalQubit 1) 0],
                      warnings = []\<rparr>, 1)) \<and>
   get_physical_qubits (initialize_layout 3) (LogicalQubit 0) (LogicalQubit 2)
     = Inr (PhysicalQubit 0, PhysicalQubit 2) \<and>
   loop_exit (\<lambda>xs. xs) LinearTopology [TryTwoQubitOp ''CNOT'' (LogicalQubit 0) (LogicalQubit 2)]
      (TryTwoQubitOp ''CNOT'' (LogicalQubit 0) (LogicalQubit 2)) []
      \<lparr>current_layout = [(LogicalQubit 0, PhysicalQubit 1), (LogicalQubit 1, PhysicalQubit 0),
                          (LogicalQubit 2, PhysicalQubit 2)],
       optimized_ops = [InsertSwapOp (PhysicalQubit 0) (PhysicalQubit 1) 0], warnings = []\<rparr> \<and>
   loop_effect 0 \<lparr>current_layout = initialize_layout 3, optimized_ops = [], warnings = []\<rparr> 1
      \<lparr>current_layout = [(LogicalQubit 0, PhysicalQubit 1), (LogicalQubit 1, PhysicalQubit 0),
                          (LogicalQubit 2, PhysicalQubit 2)],
       optimized_ops = [InsertSwapOp (PhysicalQubit 0) (PhysicalQubit 1) 0], warnings = []\<rparr>"
proof -
  let ?op = "TryTwoQubitOp ''CNOT'' (LogicalQubit 0) (LogicalQubit 2)"
  let ?st = "\<lparr>current_layout = initialize_layout 3, optimized_ops = [], warnings = []\<rparr>"
  have run: "swap_loop (\<lambda>xs. xs) LinearTopology [?op] ?op (PhysicalQubit 0) (PhysicalQubit 2)
      (build_front_layer [?op]) 0 ?st
     = Some (Inr (\<lparr>current_layout = [(LogicalQubit 0, PhysicalQubit 1), (LogicalQubit 1, PhysicalQubit 0),
                                         (LogicalQubit 2, PhysicalQubit 2)],
                      optimized_ops = [InsertSwapOp (PhysicalQubit 0) (PhysicalQubit 1) 0],
                      warnings = []\<rparr>, 1))"
    by code_simp
  have pq: "get_physical_qubits (current_layout ?st) (control ?op) (target ?op)
              = Inr (PhysicalQubit 0, PhysicalQubit 2)"
    by code_simp
  from swap_loop_stops_adjacent_or_no_candidate[OF run pq] run pq show ?thesis by simp
qed

end
